theory Spec2Isabelle
  imports Main
begin

section \<open>The events extension: data model\<close>

text \<open>
  The events extension turns the raw callbacks of the document view (\<open>handleClickOn\<close>,
  \<open>handleDOMEvents\<close>) into calls of the handler chains \<open>this.options.<kind>\<close>.
  The embedding keeps the names of the source. What a handler does to the rest of the
  editor is outside the extension; a handler is a function from the payload it receives
  to the value it returns.
\<close>

subsection \<open>Documents and the schema\<close>

datatype NodeType = NodeType string
datatype MarkType = MarkType string

text \<open>A document node: its type and its children. The view's \<open>node.eq\<close> is structural
  equality, which is the equality of this datatype.\<close>

datatype pm_node = Node (node_type: NodeType) (node_content: "pm_node list")

datatype pm_mark = Mark (mark_type: MarkType)

text \<open>\<open>schema.nodes\<close> and \<open>schema.marks\<close>: objects without prototype, read by name;
  a missing name reads \<open>undefined\<close> (\<open>None\<close>).\<close>

record Schema =
  schema_nodes :: "string \<rightharpoonup> NodeType"
  schema_marks :: "string \<rightharpoonup> MarkType"

text \<open>The argument of \<open>getNode\<close> and \<open>getMark\<close>: \<open>string | NodeType\<close>,
  \<open>string | MarkType\<close>.\<close>

datatype 'a name_or_type = ByName string | ByType 'a

datatype error =
    InvariantViolation string
  | RangeError
  | TypeError

subsection \<open>Resolved positions\<close>

text \<open>
  The resolved position of the document library, through the members the source reads:
  \<open>$pos.depth\<close>, \<open>$pos.node(i)\<close>, \<open>$pos.before(i)\<close>, \<open>$pos.nodeAfter\<close>, \<open>$pos.marks()\<close>.
  The library keeps the path from the root (depth 0) to the innermost container (depth
  \<open>depth\<close>) in an array: \<open>rp_root\<close> is the entry of depth 0, \<open>rp_ancestors\<close> lists the
  entries of depth 1 to \<open>depth\<close>, each with the position before that node.
\<close>

record ResolvedPos =
  rp_pos :: int
  rp_root :: pm_node
  rp_ancestors :: "(pm_node \<times> int) list"
  nodeAfter :: "pm_node option"
  rp_marks :: "pm_mark list"

definition depth :: "ResolvedPos \<Rightarrow> nat" where
  "depth rp = length (rp_ancestors rp)"

text \<open>\<open>$pos.node(i)\<close> reads the path array at index \<open>3 * i\<close>: beyond the innermost
  container the read is out of range and gives \<open>undefined\<close>.\<close>

definition node_at :: "ResolvedPos \<Rightarrow> nat \<Rightarrow> pm_node option" where
  "node_at rp i =
     (if i = 0 then Some (rp_root rp)
      else if i \<le> depth rp then Some (fst (rp_ancestors rp ! (i - 1)))
      else None)"

text \<open>\<open>$pos.before(i)\<close>: a \<open>RangeError\<close> at depth 0 (there is no position before the
  top-level node), the position itself at \<open>depth + 1\<close>, the stored position before the
  ancestor otherwise. Deeper than \<open>depth + 1\<close> the library computes with \<open>undefined\<close>;
  the source never asks for it and the model reports it as an error.\<close>

definition before :: "ResolvedPos \<Rightarrow> nat \<Rightarrow> error + int" where
  "before rp i =
     (if i = 0 then Inl RangeError
      else if i = depth rp + 1 then Inr (rp_pos rp)
      else if i \<le> depth rp then Inr (snd (rp_ancestors rp ! (i - 1)))
      else Inl TypeError)"

record GetMarkRange =
  range_from :: int
  range_to :: int
  range_mark :: pm_mark

record NodeWithPosition =
  nwp_node :: "pm_node option"
  nwp_pos :: int

record EditorState =
  schema :: Schema
  doc_resolve :: "int \<Rightarrow> error + ResolvedPos"

record EditorView =
  view_state :: EditorState

text \<open>A raw event is known by its identity (the key of the \<open>WeakMap\<close>).\<close>

type_synonym event = nat

subsection \<open>Helpers of the core that the sources do not include\<close>

text \<open>Modelled from the spec: \<open>invariant\<close> of the core is absent from the sources. A
  lookup of a type that does not exist in the active schema halts with a descriptive
  fault (section 7, LookupFailure): \<open>invariant(type, {message})\<close> raises when \<open>type\<close>
  is \<open>undefined\<close> and returns otherwise.\<close>

definition invariant :: "'a option \<Rightarrow> string \<Rightarrow> error + 'a" where
  "invariant v message = (case v of None \<Rightarrow> Inl (InvariantViolation message) | Some x \<Rightarrow> Inr x)"

text \<open>Modelled from the spec: \<open>range\<close> of the core helpers is absent from the sources.
  \<open>range(start, end)\<close> lists the integers from \<open>start\<close> to \<open>end\<close>, both included,
  counting down when \<open>start\<close> is the larger; the chain of \<open>depth + 1\<close> entries (section 8)
  is built from \<open>range(depth + 1, 1)\<close>.\<close>

definition range :: "nat \<Rightarrow> nat \<Rightarrow> nat list" where
  "range start end = (if start \<le> end then [start ..< end + 1] else rev [end ..< start + 1])"

text \<open>\<open>getPositionFromEvent\<close> (events-utils) and \<open>getMarkRange\<close> (core) are absent from
  the sources and are parameters of the model.\<close>

record EventPosition =
  ep_pos :: int
  ep_inside :: int

record Collaborators =
  getPositionFromEvent :: "EditorView \<Rightarrow> event \<Rightarrow> EventPosition option"
  getMarkRange :: "ResolvedPos \<Rightarrow> MarkType \<Rightarrow> GetMarkRange option"

subsection \<open>Handler states and payloads\<close>

type_synonym ret = "bool option"

definition truthy :: "ret \<Rightarrow> bool" where
  "truthy r = (r = Some True)"

record ClickMarkHandlerState =
  getMark :: "MarkType name_or_type \<Rightarrow> error + GetMarkRange option"
  markRanges :: "GetMarkRange list"
  cs_view :: EditorView
  cs_state :: EditorState

record ClickHandlerState = ClickMarkHandlerState +
  cs_pos :: int
  direct :: bool
  nodeWithPosition :: NodeWithPosition
  getNode :: "NodeType name_or_type \<Rightarrow> error + NodeWithPosition option"

record NodeWithPositionRoot = NodeWithPosition +
  isRoot :: bool

record MouseEventHandlerProps =
  mp_event :: event
  mp_view :: EditorView
  mp_nodes :: "NodeWithPosition list"
  mp_marks :: "GetMarkRange list"
  mp_getMark :: "MarkType name_or_type \<Rightarrow> error + GetMarkRange option"
  mp_getNode :: "NodeType name_or_type \<Rightarrow> error + NodeWithPositionRoot option"

datatype payload =
    EventP event
  | ClickMarkP event ClickMarkHandlerState
  | ClickP event ClickHandlerState
  | MouseP MouseEventHandlerProps
  | HoverP MouseEventHandlerProps bool

type_synonym handler = "payload \<Rightarrow> ret"

datatype kind =
    Blur | Focus | Mousedown | Mouseup | Mouseenter | Mouseleave
  | Click | ClickMark | Contextmenu | Hover

subsection \<open>The handler registry\<close>

text \<open>The decorator of the class: the keys registered as handler keys, and the
  \<open>earlyReturnValue\<close> of \<open>handlerKeyOptions\<close> (\<open>None\<close> where the key has no entry).
  The list has no \<open>hover\<close>, although \<open>EventsOptions\<close> declares \<open>hover\<close> as a handler like
  the others and the \<open>mouseover\<close> and \<open>mouseout\<close> callbacks call \<open>this.options.hover\<close>.\<close>

definition handlerKeys :: "kind list" where
  "handlerKeys =
     [Blur, Focus, Mousedown, Mouseup, Mouseenter, Mouseleave, Click, ClickMark, Contextmenu]"

fun handlerKeyOptions :: "kind \<Rightarrow> bool option" where
  "handlerKeyOptions Blur = Some True"
| "handlerKeyOptions Focus = Some True"
| "handlerKeyOptions Mousedown = Some True"
| "handlerKeyOptions Mouseleave = Some True"
| "handlerKeyOptions Mouseup = Some True"
| "handlerKeyOptions Click = Some True"
| "handlerKeyOptions Mouseenter = None"
| "handlerKeyOptions ClickMark = None"
| "handlerKeyOptions Contextmenu = None"
| "handlerKeyOptions Hover = None"

datatype policy = EarlyReturn | RunAll

text \<open>
  The handler chains of the core (\<open>this.options.<kind>\<close>, \<open>addHandler\<close>) are absent from
  the sources; the definitions of this subsection and \<open>addHandler\<close>, \<open>options\<close> below
  follow section 4.4 of the specification. A chain gives back the return values of the
  handlers it invoked, in the order of invocation, with the aggregate. The core builds
  a chain for each key of \<open>handlerKeys\<close> and for no other key.
\<close>

text \<open>Modelled from the spec: the dispatch policy of a kind, which the absent core
  selects from \<open>handlerKeyOptions\<close>. A kind is early-return when its options give the
  early return value \<open>true\<close>, and run-all otherwise.\<close>

definition policy_of :: "kind \<Rightarrow> policy" where
  "policy_of k = (if handlerKeyOptions k = Some True then EarlyReturn else RunAll)"

text \<open>Modelled from the spec: the early-return chain of the absent core. It stops
  invoking further handlers as soon as one handler's return value is truthy.\<close>

fun run_early :: "handler list \<Rightarrow> payload \<Rightarrow> ret list" where
  "run_early [] p = []"
| "run_early (h # hs) p = (if truthy (h p) then [h p] else h p # run_early hs p)"

text \<open>Modelled from the spec: the run-all chain of the absent core. It invokes every
  handler regardless of individual results.\<close>

definition run_all :: "handler list \<Rightarrow> payload \<Rightarrow> ret list" where
  "run_all hs p = map (\<lambda>h. h p) hs"

text \<open>Modelled from the spec: a chain call of the absent core. The aggregate is truthy
  when a handler that ran returned a truthy value (the logical OR of the results).\<close>

definition run_handlers :: "policy \<Rightarrow> handler list \<Rightarrow> payload \<Rightarrow> bool \<times> ret list" where
  "run_handlers pol hs p =
     (let rs = (case pol of EarlyReturn \<Rightarrow> run_early hs p | RunAll \<Rightarrow> run_all hs p)
      in (list_ex truthy rs, rs))"

subsection \<open>The extension\<close>

text \<open>Another extension of the manager: its optional \<open>createEventHandlers\<close> method
  (\<open>None\<close> when the method does not exist; otherwise the entries of the object it
  returns, in key order) and \<open>options.exclude?.clickHandler\<close>.\<close>

record AnyExtension =
  createEventHandlers :: "(kind \<times> handler) list option"
  exclude_clickHandler :: "bool option"

text \<open>The extension with its private flags, the registry (the handlers of each
  handler key, in the order of invocation; the entry of a kind that is no handler key
  is never read), the \<open>eventMap\<close> of its plugin and what it reads and writes in its store: the current state, the manager's
  \<open>exclude?.clickHandler\<close> setting, the extensions, the one-shot \<open>mouseup\<close> listeners it
  has attached to the document element and the empty updates it has dispatched.\<close>

record EventsExtension =
  mousedown :: bool
  mouseover :: bool
  handlers :: "kind \<Rightarrow> handler list"
  eventMap :: "event \<rightharpoonup> bool"
  currentState :: EditorState
  managerExclude :: "bool option"
  extensions :: "AnyExtension list"
  mouseupListeners :: nat
  emptyUpdates :: nat

text \<open>A new extension: both flags start false and the \<open>eventMap\<close> of the plugin is
  empty.\<close>

definition newEventsExtension ::
  "(kind \<Rightarrow> handler list) \<Rightarrow> EditorState \<Rightarrow> bool option \<Rightarrow> AnyExtension list \<Rightarrow> EventsExtension" where
  "newEventsExtension hs st ex exts =
     \<lparr>mousedown = False, mouseover = False, handlers = hs, eventMap = Map.empty,
      currentState = st, managerExclude = ex, extensions = exts,
      mouseupListeners = 0, emptyUpdates = 0\<rparr>"

text \<open>Modelled from the spec: \<open>addHandler\<close> of the core is absent from the sources.
  Section 4.4: registrations of one kind are invoked by priority, ties broken by
  registration order; \<open>onView\<close> registers every handler without a priority of its own,
  so a registration goes behind the earlier ones of its kind. The registry has a list
  for each key of \<open>handlerKeys\<close>; for another key there is no list to push to and the
  call raises a \<open>TypeError\<close>.\<close>

definition addHandler :: "kind \<Rightarrow> handler \<Rightarrow> EventsExtension \<Rightarrow> error + EventsExtension" where
  "addHandler k h ext =
     (if k \<in> set handlerKeys
      then Inr (ext\<lparr>handlers := (handlers ext)(k := handlers ext k @ [h])\<rparr>)
      else Inl TypeError)"

text \<open>Modelled from the spec: \<open>this.options.<kind>\<close> of the absent core, the chain of
  the handlers registered for the kind, run with the policy of the kind. For a key that
  is not in \<open>handlerKeys\<close> the core builds no chain: \<open>this.options.<kind>\<close> is not a
  function and calling it raises a \<open>TypeError\<close>.\<close>

definition options :: "EventsExtension \<Rightarrow> kind \<Rightarrow> payload \<Rightarrow> error + (bool \<times> ret list)" where
  "options ext k p =
     (if k \<in> set handlerKeys
      then Inr (run_handlers (policy_of k) (handlers ext k) p)
      else Inl TypeError)"

text \<open>\<open>onView\<close>: the inner loop over the entries of \<open>createEventHandlers()\<close>, the body
  of the loop over the extensions (an extension is passed over when the method does not
  exist or its options exclude it), the loop over the extensions, and the method
  itself. An exception of \<open>addHandler\<close> ends the loops and leaves \<open>onView\<close>.\<close>

fun addHandlers :: "(kind \<times> handler) list \<Rightarrow> EventsExtension \<Rightarrow> error + EventsExtension" where
  "addHandlers [] ext = Inr ext"
| "addHandlers ((key, h) # eventHandlers) ext =
     (case addHandler key h ext of
        Inl e \<Rightarrow> Inl e
      | Inr ext1 \<Rightarrow> addHandlers eventHandlers ext1)"

definition register_extension :: "EventsExtension \<Rightarrow> AnyExtension \<Rightarrow> error + EventsExtension" where
  "register_extension ext x =
     (case createEventHandlers x of
        None \<Rightarrow> Inr ext
      | Some eventHandlers \<Rightarrow>
          if exclude_clickHandler x = Some True then Inr ext else addHandlers eventHandlers ext)"

fun register_extensions :: "AnyExtension list \<Rightarrow> EventsExtension \<Rightarrow> error + EventsExtension" where
  "register_extensions [] ext = Inr ext"
| "register_extensions (x # xs) ext =
     (case register_extension ext x of
        Inl e \<Rightarrow> Inl e
      | Inr ext1 \<Rightarrow> register_extensions xs ext1)"

definition onView :: "EventsExtension \<Rightarrow> error + EventsExtension" where
  "onView ext =
     (if managerExclude ext = Some True then Inr ext
      else register_extensions (extensions ext) ext)"

subsection \<open>The interaction flags\<close>

definition isInteracting :: "EventsExtension \<Rightarrow> bool" where
  "isInteracting ext = (mousedown ext \<and> mouseover ext)"

definition startMouseover :: "EventsExtension \<Rightarrow> EventsExtension" where
  "startMouseover ext =
     (let ext1 = ext\<lparr>mouseover := True\<rparr> in
      if mousedown ext1 then ext1
      else ext1\<lparr>mousedown := True, mouseupListeners := Suc (mouseupListeners ext1)\<rparr>)"

definition endMouseover :: "EventsExtension \<Rightarrow> EventsExtension" where
  "endMouseover ext =
     (if \<not> mousedown ext then ext
      else ext\<lparr>mousedown := False, emptyUpdates := Suc (emptyUpdates ext)\<rparr>)"

text \<open>The entries of \<open>handleDOMEvents\<close>: what the callback returns (the aggregate of the
  chain, \<open>|| false\<close> leaves a boolean as it is) with the values the handlers returned,
  or the error the chain raised; and the extension afterwards.\<close>

definition dom_focus :: "EventsExtension \<Rightarrow> event \<Rightarrow> (error + (bool \<times> ret list)) \<times> EventsExtension" where
  "dom_focus ext e = (options ext Focus (EventP e), ext)"

definition dom_blur :: "EventsExtension \<Rightarrow> event \<Rightarrow> (error + (bool \<times> ret list)) \<times> EventsExtension" where
  "dom_blur ext e = (options ext Blur (EventP e), ext)"

definition dom_mousedown :: "EventsExtension \<Rightarrow> event \<Rightarrow> (error + (bool \<times> ret list)) \<times> EventsExtension" where
  "dom_mousedown ext e =
     (let ext1 = startMouseover ext in (options ext1 Mousedown (EventP e), ext1))"

definition dom_mouseup :: "EventsExtension \<Rightarrow> event \<Rightarrow> (error + (bool \<times> ret list)) \<times> EventsExtension" where
  "dom_mouseup ext e =
     (let ext1 = endMouseover ext in (options ext1 Mouseup (EventP e), ext1))"

definition dom_mouseleave :: "EventsExtension \<Rightarrow> event \<Rightarrow> (error + (bool \<times> ret list)) \<times> EventsExtension" where
  "dom_mouseleave ext e =
     (let ext1 = ext\<lparr>mouseover := False\<rparr> in (options ext1 Mouseleave (EventP e), ext1))"

definition dom_mouseenter :: "EventsExtension \<Rightarrow> event \<Rightarrow> (error + (bool \<times> ret list)) \<times> EventsExtension" where
  "dom_mouseenter ext e =
     (let ext1 = ext\<lparr>mouseover := True\<rparr> in (options ext1 Mouseenter (EventP e), ext1))"

text \<open>A \<open>mouseup\<close> that reaches the document element runs every one-shot listener
  attached by \<open>startMouseover\<close> (each calls \<open>endMouseover\<close>) and removes them.\<close>

definition document_mouseup :: "EventsExtension \<Rightarrow> EventsExtension" where
  "document_mouseup ext =
     (endMouseover ^^ mouseupListeners ext) (ext\<lparr>mouseupListeners := 0\<rparr>)"

text \<open>The events of the page that reach these callbacks. An event inside the editor runs
  the editor's callback and then bubbles to the document element; a \<open>mouseup\<close> outside
  the editor reaches the document element only.\<close>

datatype page_event =
    MousedownInside event
  | MouseupInside event
  | MouseupOutside event
  | MouseleaveEditor event
  | MouseenterEditor event
  | FocusEditor event
  | BlurEditor event

fun deliver :: "EventsExtension \<Rightarrow> page_event \<Rightarrow> EventsExtension" where
  "deliver ext (MousedownInside e) = snd (dom_mousedown ext e)"
| "deliver ext (MouseupInside e) = document_mouseup (snd (dom_mouseup ext e))"
| "deliver ext (MouseupOutside e) = document_mouseup ext"
| "deliver ext (MouseleaveEditor e) = snd (dom_mouseleave ext e)"
| "deliver ext (MouseenterEditor e) = snd (dom_mouseenter ext e)"
| "deliver ext (FocusEditor e) = snd (dom_focus ext e)"
| "deliver ext (BlurEditor e) = snd (dom_blur ext e)"

definition deliver_all :: "EventsExtension \<Rightarrow> page_event list \<Rightarrow> EventsExtension" where
  "deliver_all ext es = foldl deliver ext es"

subsection \<open>Mark ranges and the lookups given to handlers\<close>

text \<open>The loop \<open>for (const { type } of $pos.marks())\<close>, which \<open>createClickMarkState\<close>
  and the mouse event handler both run: the range of each active mark is pushed when
  \<open>getMarkRange\<close> finds one.\<close>

fun push_marks ::
  "(MarkType \<Rightarrow> GetMarkRange option) \<Rightarrow> pm_mark list \<Rightarrow> GetMarkRange list \<Rightarrow> GetMarkRange list" where
  "push_marks gmr [] acc = acc"
| "push_marks gmr (m # ms) acc =
     (case gmr (mark_type m) of
        None \<Rightarrow> push_marks gmr ms acc
      | Some r \<Rightarrow> push_marks gmr ms (acc @ [r]))"

text \<open>The body of \<open>getMark\<close>, written twice in the source (over \<open>state.schema\<close> and
  \<open>clickState.markRanges\<close>, and over \<open>view.state.schema\<close> and \<open>marks\<close>).\<close>

definition lookup_mark ::
  "Schema \<Rightarrow> GetMarkRange list \<Rightarrow> MarkType name_or_type \<Rightarrow> error + GetMarkRange option" where
  "lookup_mark sch ranges markType =
     (case (case markType of
              ByName s \<Rightarrow>
                invariant (schema_marks sch s)
                  (''The mark '' @ s @ '' being checked does not exist within the editor schema.'')
            | ByType t \<Rightarrow> Inr t) of
        Inl e \<Rightarrow> Inl e
      | Inr type \<Rightarrow> Inr (find (\<lambda>r. mark_type (range_mark r) = type) ranges))"

text \<open>\<open>noop\<close>: returns \<open>undefined\<close> whatever it is given.\<close>

definition noop :: "'a \<Rightarrow> error + 'b option" where
  "noop x = Inr None"

definition createClickMarkState ::
  "Collaborators \<Rightarrow> ResolvedPos \<Rightarrow> bool \<Rightarrow> EditorView \<Rightarrow> EditorState \<Rightarrow> ClickMarkHandlerState" where
  "createClickMarkState co rp handled view state =
     (let clickState = \<lparr>getMark = noop, markRanges = [], cs_view = view, cs_state = state\<rparr> in
      if handled then clickState
      else
        (let ranges = push_marks (getMarkRange co rp) (rp_marks rp) (markRanges clickState) in
         clickState\<lparr>markRanges := ranges, getMark := lookup_mark (schema state) ranges\<rparr>))"

text \<open>\<open>getNode\<close> of the click state: the type is looked up, must exist, and is compared
  with the type of the node of this invocation.\<close>

definition click_getNode ::
  "Schema \<Rightarrow> pm_node \<Rightarrow> int \<Rightarrow> NodeType name_or_type \<Rightarrow> error + NodeWithPosition option" where
  "click_getNode sch node nodePos nodeType =
     (case (case nodeType of
              ByName s \<Rightarrow> invariant (schema_nodes sch s) ''The node being checked does not exist''
            | ByType t \<Rightarrow> Inr t) of
        Inl e \<Rightarrow> Inl e
      | Inr type \<Rightarrow>
          Inr (if type = node_type node then Some \<lparr>nwp_node = Some node, nwp_pos = nodePos\<rparr>
               else None))"

subsection \<open>handleClickOn\<close>

text \<open>A record of one call of a handler chain: the event and state the chain was given
  and the values its handlers returned.\<close>

datatype chain_call =
    ClickMarkCall event ClickMarkHandlerState "ret list"
  | ClickCall event ClickHandlerState "ret list"

definition handleClickOn ::
  "Collaborators \<Rightarrow> EventsExtension \<Rightarrow> EditorView \<Rightarrow> int \<Rightarrow> pm_node \<Rightarrow> int \<Rightarrow> event \<Rightarrow> bool
     \<Rightarrow> error + (bool \<times> chain_call list \<times> EventsExtension)" where
  "handleClickOn co ext view pos node nodePos event direct_hit =
     (let state = currentState ext in
      case doc_resolve state pos of
        Inl e \<Rightarrow> Inl e
      | Inr rp \<Rightarrow>
          (let handled = (eventMap ext event \<noteq> None);
               baseState = createClickMarkState co rp handled view state
           in case (if \<not> handled then
                      (case options ext ClickMark (ClickMarkP event baseState) of
                         Inl e \<Rightarrow> Inl e
                       | Inr (r, rs) \<Rightarrow> Inr (r \<or> False, [ClickMarkCall event baseState rs]))
                    else Inr (False, [])) of
                Inl e \<Rightarrow> Inl e
              | Inr (returnValue, markCalls) \<Rightarrow>
                  (let clickState =
                         \<lparr>getMark = getMark baseState, markRanges = markRanges baseState,
                          cs_view = cs_view baseState, cs_state = cs_state baseState,
                          cs_pos = pos, direct = direct_hit,
                          nodeWithPosition = \<lparr>nwp_node = Some node, nwp_pos = nodePos\<rparr>,
                          getNode = click_getNode (schema state) node nodePos\<rparr>;
                       ext1 = ext\<lparr>eventMap := (eventMap ext)(event \<mapsto> True)\<rparr>
                   in case options ext1 Click (ClickP event clickState) of
                        Inl e \<Rightarrow> Inl e
                      | Inr (r, rs) \<Rightarrow>
                          Inr (r \<or> returnValue, markCalls @ [ClickCall event clickState rs],
                               ext1))))"

text \<open>The view calls \<open>handleClickOn\<close> with the same event and position for the nodes
  of the hit, from the node clicked directly outwards; \<open>direct\<close> is true for the first
  call only. \<open>click_calls\<close> runs a list of calls one after the other on the extension as
  the previous call left it, and gives back what each call returned. (The view goes on
  to the next node as long as the calls return false.)\<close>

fun ancestor_calls :: "(pm_node \<times> int) list \<Rightarrow> (pm_node \<times> int \<times> bool) list" where
  "ancestor_calls [] = []"
| "ancestor_calls ((n, p) # rest) = (n, p, True) # map (\<lambda>(n, p). (n, p, False)) rest"

fun click_calls ::
  "Collaborators \<Rightarrow> EventsExtension \<Rightarrow> EditorView \<Rightarrow> int \<Rightarrow> event \<Rightarrow> (pm_node \<times> int \<times> bool) list
     \<Rightarrow> error + (bool list \<times> chain_call list \<times> EventsExtension)" where
  "click_calls co ext view pos event [] = Inr ([], [], ext)"
| "click_calls co ext view pos event ((node, nodePos, d) # rest) =
     (case handleClickOn co ext view pos node nodePos event d of
        Inl e \<Rightarrow> Inl e
      | Inr (r, calls, ext1) \<Rightarrow>
          (case click_calls co ext1 view pos event rest of
             Inl e \<Rightarrow> Inl e
           | Inr (rs, calls1, ext2) \<Rightarrow> Inr (r # rs, calls @ calls1, ext2)))"

fun is_click_call :: "chain_call \<Rightarrow> bool" where
  "is_click_call (ClickCall e st rs) = True"
| "is_click_call (ClickMarkCall e st rs) = False"

fun call_results :: "chain_call \<Rightarrow> ret list" where
  "call_results (ClickCall e st rs) = rs"
| "call_results (ClickMarkCall e st rs) = rs"

fun click_states :: "chain_call list \<Rightarrow> ClickHandlerState list" where
  "click_states [] = []"
| "click_states (ClickCall e st rs # cs) = st # click_states cs"
| "click_states (ClickMarkCall e st rs # cs) = click_states cs"

fun click_mark_states :: "chain_call list \<Rightarrow> ClickMarkHandlerState list" where
  "click_mark_states [] = []"
| "click_mark_states (ClickCall e st rs # cs) = click_mark_states cs"
| "click_mark_states (ClickMarkCall e st rs # cs) = st # click_mark_states cs"

subsection \<open>The mouse event handler: hover and contextmenu\<close>

text \<open>The loop \<open>for (const index of range(currentNodeDepth, 1))\<close>: one entry is pushed
  for each index.\<close>

fun push_nodes ::
  "ResolvedPos \<Rightarrow> nat list \<Rightarrow> NodeWithPosition list \<Rightarrow> error + NodeWithPosition list" where
  "push_nodes rp [] nodes = Inr nodes"
| "push_nodes rp (index # rest) nodes =
     (case before rp index of
        Inl e \<Rightarrow> Inl e
      | Inr p \<Rightarrow>
          push_nodes rp rest
            (nodes @
              [\<lparr>nwp_node =
                  (if index > depth rp \<and> nodeAfter rp \<noteq> None then nodeAfter rp
                   else node_at rp index),
                nwp_pos = p\<rparr>]))"

text \<open>\<open>nodes.find(({ node }) => node.type === type)\<close>: reading \<open>type\<close> of an entry
  whose node is \<open>undefined\<close> raises a \<open>TypeError\<close>.\<close>

fun find_node :: "NodeType \<Rightarrow> NodeWithPosition list \<Rightarrow> error + NodeWithPosition option" where
  "find_node type [] = Inr None"
| "find_node type (e # es) =
     (case nwp_node e of
        None \<Rightarrow> Inl TypeError
      | Some n \<Rightarrow> if node_type n = type then Inr (Some e) else find_node type es)"

definition mouse_getNode ::
  "Schema \<Rightarrow> NodeWithPosition list \<Rightarrow> NodeType name_or_type \<Rightarrow> error + NodeWithPositionRoot option" where
  "mouse_getNode sch nodes nodeType =
     (case (case nodeType of
              ByName s \<Rightarrow> invariant (schema_nodes sch s) ''The node being checked does not exist''
            | ByType t \<Rightarrow> Inr t) of
        Inl e \<Rightarrow> Inl e
      | Inr type \<Rightarrow>
          (case find_node type nodes of
             Inl e \<Rightarrow> Inl e
           | Inr None \<Rightarrow> Inr None
           | Inr (Some nodeWithPos) \<Rightarrow>
               (case nodes of
                  [] \<Rightarrow>
                    Inr (Some \<lparr>nwp_node = nwp_node nodeWithPos, nwp_pos = nwp_pos nodeWithPos,
                               isRoot = False\<rparr>)
                | first # _ \<Rightarrow>
                    (case nwp_node first of
                       None \<Rightarrow> Inl TypeError
                     | Some n \<Rightarrow>
                         Inr (Some \<lparr>nwp_node = nwp_node nodeWithPos, nwp_pos = nwp_pos nodeWithPos,
                                    isRoot = (Some n = nwp_node nodeWithPos)\<rparr>)))))"

text \<open>What a call of the handler made by \<open>createMouseEventHandler\<close> did: how it ended
  (the value it returned, or the error it raised), the props it gave to \<open>fn\<close> (\<open>None\<close>
  when \<open>fn\<close> was not called), the values the handlers returned, and whether it called
  \<open>event.preventDefault()\<close>. \<open>fn\<close> gives back the aggregate with the values the handlers
  returned, or the error it raised.\<close>

record MouseOutcome =
  mo_returned :: "error + bool"
  mo_props :: "MouseEventHandlerProps option"
  mo_results :: "ret list"
  mo_defaultPrevented :: bool

definition createMouseEventHandler ::
  "Collaborators \<Rightarrow> (MouseEventHandlerProps \<Rightarrow> error + (bool \<times> ret list)) \<Rightarrow> EditorView \<Rightarrow> event
     \<Rightarrow> MouseOutcome" where
  "createMouseEventHandler co fn view event =
     (case getPositionFromEvent co view event of
        None \<Rightarrow>
          \<lparr>mo_returned = Inr False, mo_props = None, mo_results = [],
           mo_defaultPrevented = False\<rparr>
      | Some eventPosition \<Rightarrow>
          (let pos = ep_pos eventPosition; inside = ep_inside eventPosition in
           case doc_resolve (view_state view) pos of
             Inl e \<Rightarrow>
               \<lparr>mo_returned = Inl e, mo_props = None, mo_results = [],
                mo_defaultPrevented = False\<rparr>
           | Inr rp \<Rightarrow>
               (let currentNodeDepth = depth rp + 1 in
                case (if inside > - 1 then push_nodes rp (range currentNodeDepth 1) [] else Inr []) of
                  Inl e \<Rightarrow>
                    \<lparr>mo_returned = Inl e, mo_props = None, mo_results = [],
                     mo_defaultPrevented = False\<rparr>
                | Inr nodes \<Rightarrow>
                    (let marks =
                           (if inside > - 1 then push_marks (getMarkRange co rp) (rp_marks rp) []
                            else []);
                         props =
                           \<lparr>mp_event = event, mp_view = view, mp_nodes = nodes, mp_marks = marks,
                            mp_getMark = lookup_mark (schema (view_state view)) marks,
                            mp_getNode = mouse_getNode (schema (view_state view)) nodes\<rparr>
                     in case fn props of
                          Inl e \<Rightarrow>
                            \<lparr>mo_returned = Inl e, mo_props = Some props, mo_results = [],
                             mo_defaultPrevented = False\<rparr>
                        | Inr (isCaptured, rs) \<Rightarrow>
                            \<lparr>mo_returned = Inr isCaptured, mo_props = Some props,
                             mo_results = rs, mo_defaultPrevented = isCaptured\<rparr>))))"

definition dom_mouseout ::
  "Collaborators \<Rightarrow> EventsExtension \<Rightarrow> EditorView \<Rightarrow> event \<Rightarrow> MouseOutcome" where
  "dom_mouseout co ext =
     createMouseEventHandler co (\<lambda>props. options ext Hover (HoverP props False))"

definition dom_mouseover ::
  "Collaborators \<Rightarrow> EventsExtension \<Rightarrow> EditorView \<Rightarrow> event \<Rightarrow> MouseOutcome" where
  "dom_mouseover co ext =
     createMouseEventHandler co (\<lambda>props. options ext Hover (HoverP props True))"

definition dom_contextmenu ::
  "Collaborators \<Rightarrow> EventsExtension \<Rightarrow> EditorView \<Rightarrow> event \<Rightarrow> MouseOutcome" where
  "dom_contextmenu co ext =
     createMouseEventHandler co (\<lambda>props. options ext Contextmenu (MouseP props))"

subsection \<open>Notions used to state the properties\<close>

text \<open>While the \<open>mousedown\<close> flag is set, a one-shot \<open>mouseup\<close> listener is attached to
  the document element.\<close>

definition listener_attached :: "EventsExtension \<Rightarrow> bool" where
  "listener_attached ext = (if mousedown ext then 0 < mouseupListeners ext else True)"

text \<open>The entries that an extension exposes to \<open>onView\<close>: none when it has no
  \<open>createEventHandlers\<close> or has set \<open>exclude.clickHandler\<close>; the handlers of kind \<open>k\<close>
  among a list of entries; and the entries of a list of extensions, in order.\<close>

definition exposed_entries :: "AnyExtension \<Rightarrow> (kind \<times> handler) list" where
  "exposed_entries x =
     (case createEventHandlers x of
        None \<Rightarrow> []
      | Some eventHandlers \<Rightarrow>
          if exclude_clickHandler x = Some True then [] else eventHandlers)"

definition handlers_of :: "(kind \<times> handler) list \<Rightarrow> kind \<Rightarrow> handler list" where
  "handlers_of entries k = map snd (filter (\<lambda>(key, h). key = k) entries)"

definition all_exposed :: "AnyExtension list \<Rightarrow> (kind \<times> handler) list" where
  "all_exposed xs = concat (map exposed_entries xs)"

text \<open>Every key of a list of entries is a handler key.\<close>

definition handler_keys_only :: "(kind \<times> handler) list \<Rightarrow> bool" where
  "handler_keys_only entries = list_all (\<lambda>(key, h). key \<in> set handlerKeys) entries"

text \<open>The extension with the entries registered behind the handlers it has.\<close>

definition with_handlers :: "EventsExtension \<Rightarrow> (kind \<times> handler) list \<Rightarrow> EventsExtension" where
  "with_handlers ext entries = ext\<lparr>handlers := (\<lambda>k. handlers ext k @ handlers_of entries k)\<rparr>"

text \<open>The entry of the node chain for an ancestor of the path.\<close>

definition ancestor_entry :: "pm_node \<times> int \<Rightarrow> NodeWithPosition" where
  "ancestor_entry a = \<lparr>nwp_node = Some (fst a), nwp_pos = snd a\<rparr>"

text \<open>The props object the mouse event handler builds from its nodes and marks.\<close>

definition mouse_props ::
  "EditorView \<Rightarrow> event \<Rightarrow> NodeWithPosition list \<Rightarrow> GetMarkRange list \<Rightarrow> MouseEventHandlerProps" where
  "mouse_props view event nodes marks =
     \<lparr>mp_event = event, mp_view = view, mp_nodes = nodes, mp_marks = marks,
      mp_getMark = lookup_mark (schema (view_state view)) marks,
      mp_getNode = mouse_getNode (schema (view_state view)) nodes\<rparr>"

text \<open>The node list, the mark list and the props that a call of the mouse event handler
  gave to \<open>fn\<close> (\<open>None\<close> when it did not call \<open>fn\<close>), and the values the handlers returned
  (\<open>None\<close> when the call raised).\<close>

definition dispatched_nodes :: "MouseOutcome \<Rightarrow> NodeWithPosition list option" where
  "dispatched_nodes out = map_option mp_nodes (mo_props out)"

definition dispatched_marks :: "MouseOutcome \<Rightarrow> GetMarkRange list option" where
  "dispatched_marks out = map_option mp_marks (mo_props out)"

definition dispatched_props :: "MouseOutcome \<Rightarrow> MouseEventHandlerProps option" where
  "dispatched_props out = mo_props out"

definition dispatched_results :: "MouseOutcome \<Rightarrow> ret list option" where
  "dispatched_results out =
     (case mo_returned out of Inl e \<Rightarrow> None | Inr b \<Rightarrow> Some (mo_results out))"

text \<open>The click state \<open>handleClickOn\<close> builds from the base state, and the extension
  after \<open>eventMap.set(event, true)\<close>.\<close>

definition click_state_of ::
  "ClickMarkHandlerState \<Rightarrow> Schema \<Rightarrow> int \<Rightarrow> pm_node \<Rightarrow> int \<Rightarrow> bool \<Rightarrow> ClickHandlerState" where
  "click_state_of baseState sch pos node nodePos d =
     \<lparr>getMark = getMark baseState, markRanges = markRanges baseState,
      cs_view = cs_view baseState, cs_state = cs_state baseState,
      cs_pos = pos, direct = d,
      nodeWithPosition = \<lparr>nwp_node = Some node, nwp_pos = nodePos\<rparr>,
      getNode = click_getNode sch node nodePos\<rparr>"

definition mark_handled :: "EventsExtension \<Rightarrow> event \<Rightarrow> EventsExtension" where
  "mark_handled ext event = ext\<lparr>eventMap := (eventMap ext)(event \<mapsto> True)\<rparr>"

text \<open>The chain calls made by a call of \<open>handleClickOn\<close> (none when it raised).\<close>

definition calls_of ::
  "error + (bool \<times> chain_call list \<times> EventsExtension) \<Rightarrow> chain_call list" where
  "calls_of r = (case r of Inl e \<Rightarrow> [] | Inr (b, calls, ext) \<Rightarrow> calls)"

text \<open>The chains that \<open>handleClickOn\<close> calls, on the handlers registered for the two
  kinds: run-all for clickMark, early-return for click.\<close>

definition mark_chain :: "EventsExtension \<Rightarrow> event \<Rightarrow> ClickMarkHandlerState \<Rightarrow> bool \<times> ret list" where
  "mark_chain ext event baseState =
     run_handlers RunAll (handlers ext ClickMark) (ClickMarkP event baseState)"

definition click_chain :: "EventsExtension \<Rightarrow> event \<Rightarrow> ClickHandlerState \<Rightarrow> bool \<times> ret list" where
  "click_chain ext event clickState =
     run_handlers EarlyReturn (handlers ext Click) (ClickP event clickState)"

text \<open>The click state of a call for an event that the \<open>eventMap\<close> already holds, and the
  record of the click chain's call in it.\<close>

definition repeat_state ::
  "Collaborators \<Rightarrow> EventsExtension \<Rightarrow> ResolvedPos \<Rightarrow> EditorView \<Rightarrow> int
     \<Rightarrow> pm_node \<times> int \<times> bool \<Rightarrow> ClickHandlerState" where
  "repeat_state co ext rp view pos c =
     (case c of (node, nodePos, d) \<Rightarrow>
        click_state_of (createClickMarkState co rp True view (currentState ext))
          (schema (currentState ext)) pos node nodePos d)"

definition repeat_call ::
  "Collaborators \<Rightarrow> EventsExtension \<Rightarrow> ResolvedPos \<Rightarrow> EditorView \<Rightarrow> int \<Rightarrow> event
     \<Rightarrow> pm_node \<times> int \<times> bool \<Rightarrow> chain_call" where
  "repeat_call co ext rp view pos event c =
     ClickCall event (repeat_state co ext rp view pos c)
       (snd (click_chain ext event (repeat_state co ext rp view pos c)))"

subsection \<open>An example editor\<close>

text \<open>A document \<open>doc(blockquote(paragraph("abc")))\<close> with the text in bold. The
  blockquote starts at position 0, the paragraph at 1, the text runs from 2 to 5.
  Position 0 is the start of the document, 3 is inside the text, 5 is the end of the
  paragraph and 7 the end of the document.\<close>

definition ex_text :: pm_node where
  "ex_text = Node (NodeType ''text'') []"

definition ex_paragraph :: pm_node where
  "ex_paragraph = Node (NodeType ''paragraph'') [ex_text]"

definition ex_blockquote :: pm_node where
  "ex_blockquote = Node (NodeType ''blockquote'') [ex_paragraph]"

definition ex_doc :: pm_node where
  "ex_doc = Node (NodeType ''doc'') [ex_blockquote]"

definition ex_bold :: pm_mark where
  "ex_bold = Mark (MarkType ''bold'')"

definition ex_schema :: Schema where
  "ex_schema =
     \<lparr>schema_nodes =
        [''doc'' \<mapsto> NodeType ''doc'', ''blockquote'' \<mapsto> NodeType ''blockquote'',
         ''paragraph'' \<mapsto> NodeType ''paragraph'', ''text'' \<mapsto> NodeType ''text'',
         ''image'' \<mapsto> NodeType ''image''],
      schema_marks = [''bold'' \<mapsto> MarkType ''bold'', ''italic'' \<mapsto> MarkType ''italic'']\<rparr>"

definition ex_resolve :: "int \<Rightarrow> error + ResolvedPos" where
  "ex_resolve pos =
     (if pos = 0 then
        Inr \<lparr>rp_pos = 0, rp_root = ex_doc, rp_ancestors = [],
             nodeAfter = Some ex_blockquote, rp_marks = []\<rparr>
      else if pos = 3 then
        Inr \<lparr>rp_pos = 3, rp_root = ex_doc, rp_ancestors = [(ex_blockquote, 0), (ex_paragraph, 1)],
             nodeAfter = Some ex_text, rp_marks = [ex_bold]\<rparr>
      else if pos = 5 then
        Inr \<lparr>rp_pos = 5, rp_root = ex_doc, rp_ancestors = [(ex_blockquote, 0), (ex_paragraph, 1)],
             nodeAfter = None, rp_marks = [ex_bold]\<rparr>
      else if pos = 7 then
        Inr \<lparr>rp_pos = 7, rp_root = ex_doc, rp_ancestors = [], nodeAfter = None, rp_marks = []\<rparr>
      else Inl RangeError)"

definition ex_state :: EditorState where
  "ex_state = \<lparr>schema = ex_schema, doc_resolve = ex_resolve\<rparr>"

definition ex_view :: EditorView where
  "ex_view = \<lparr>view_state = ex_state\<rparr>"

text \<open>Event 0 has no position; event 1 is at the edge of the document, outside its
  content; event 2 is at the end of the paragraph; the other events are on the text.\<close>

definition ex_co :: Collaborators where
  "ex_co =
     \<lparr>getPositionFromEvent =
        (\<lambda>view e. if e = 0 then None
                   else if e = 1 then Some \<lparr>ep_pos = 0, ep_inside = - 1\<rparr>
                   else if e = 2 then Some \<lparr>ep_pos = 5, ep_inside = 1\<rparr>
                   else Some \<lparr>ep_pos = 3, ep_inside = 2\<rparr>),
      getMarkRange =
        (\<lambda>rp t. if t = MarkType ''bold''
                 then Some \<lparr>range_from = 2, range_to = 5, range_mark = ex_bold\<rparr>
                 else None)\<rparr>"

definition h_true :: handler where
  "h_true p = Some True"

definition h_false :: handler where
  "h_false p = Some False"

definition h_void :: handler where
  "h_void p = None"

definition ex_handlers :: "kind \<Rightarrow> handler list" where
  "ex_handlers k =
     (if k = Click then [h_void, h_true, h_false]
      else if k = ClickMark then [h_true, h_false]
      else if k = Contextmenu then [h_false, h_true, h_void]
      else if k = Mouseenter then [h_true, h_void]
      else if k = Mousedown then [h_false, h_true, h_void]
      else [])"

text \<open>Handlers that consume nothing, so that the view goes through every node of a
  hit.\<close>

definition ex_quiet_handlers :: "kind \<Rightarrow> handler list" where
  "ex_quiet_handlers k =
     (if k = Click then [h_void, h_false]
      else if k = ClickMark then [h_false, h_void]
      else [])"

text \<open>Four extensions: one without \<open>createEventHandlers\<close>, one that exposes a click and
  a contextmenu handler, one that has set \<open>exclude.clickHandler\<close>, one that has cleared
  it. In \<open>ex_hover_extensions\<close> the second extension exposes a hover handler instead of
  the contextmenu handler.\<close>

definition ex_extensions :: "AnyExtension list" where
  "ex_extensions =
     [\<lparr>createEventHandlers = None, exclude_clickHandler = None\<rparr>,
      \<lparr>createEventHandlers = Some [(Click, h_false), (Contextmenu, h_true)],
       exclude_clickHandler = None\<rparr>,
      \<lparr>createEventHandlers = Some [(Click, h_true)], exclude_clickHandler = Some True\<rparr>,
      \<lparr>createEventHandlers = Some [(Click, h_void)], exclude_clickHandler = Some False\<rparr>]"

definition ex_hover_extensions :: "AnyExtension list" where
  "ex_hover_extensions =
     [\<lparr>createEventHandlers = None, exclude_clickHandler = None\<rparr>,
      \<lparr>createEventHandlers = Some [(Click, h_false), (Hover, h_true)], exclude_clickHandler = None\<rparr>,
      \<lparr>createEventHandlers = Some [(Click, h_true)], exclude_clickHandler = Some True\<rparr>,
      \<lparr>createEventHandlers = Some [(Click, h_void)], exclude_clickHandler = Some False\<rparr>]"

definition ex_ext :: EventsExtension where
  "ex_ext = newEventsExtension ex_handlers ex_state None ex_extensions"

definition ex_quiet_ext :: EventsExtension where
  "ex_quiet_ext = newEventsExtension ex_quiet_handlers ex_state None ex_extensions"

section \<open>The interaction flags\<close>

lemma endMouseover_funpow_mousedown:
  "mousedown ((endMouseover ^^ n) ext) = (mousedown ext \<and> n = 0)"
  by (induction n arbitrary: ext) (auto simp: endMouseover_def funpow_swap1)

lemma endMouseover_funpow_mouseover:
  "mouseover ((endMouseover ^^ n) ext) = mouseover ext"
  by (induction n arbitrary: ext) (auto simp: endMouseover_def)

lemma endMouseover_funpow_listeners:
  "mouseupListeners ((endMouseover ^^ n) ext) = mouseupListeners ext"
  by (induction n arbitrary: ext) (auto simp: endMouseover_def)

lemma listener_attached_new: "listener_attached (newEventsExtension hs st ex exts)"
  by (simp add: listener_attached_def newEventsExtension_def)

lemma listener_attached_deliver:
  "listener_attached ext \<Longrightarrow> listener_attached (deliver ext ev)"
  by (cases ev)
     (auto simp: listener_attached_def dom_mousedown_def dom_mouseup_def dom_mouseleave_def
        dom_mouseenter_def dom_focus_def dom_blur_def document_mouseup_def startMouseover_def
        endMouseover_def Let_def endMouseover_funpow_mousedown endMouseover_funpow_listeners)

lemma listener_attached_deliver_all:
  "listener_attached ext \<Longrightarrow> listener_attached (deliver_all ext es)"
  unfolding deliver_all_def
  by (induction es arbitrary: ext) (simp_all add: listener_attached_deliver)

lemma mouseup_anywhere_clears:
  "listener_attached ext \<Longrightarrow>
     \<not> mousedown (deliver ext (MouseupOutside e)) \<and> \<not> mousedown (deliver ext (MouseupInside e))"
  by (auto simp: listener_attached_def document_mouseup_def dom_mouseup_def endMouseover_def
      Let_def endMouseover_funpow_mousedown split: if_splits)

lemma mousedown_sets_both:
  "mousedown (snd (dom_mousedown ext e)) \<and> mouseover (snd (dom_mousedown ext e))"
  by (auto simp: dom_mousedown_def startMouseover_def Let_def)

text \<open>Claim C3. \<open>isInteracting()\<close> is the conjunction of the \<open>mousedown\<close> flag and the
  \<open>mouseover\<close> flag. It is false for a new extension; after any events of the page, it is
  true after a \<open>mousedown\<close> inside the editor and false after a \<open>mouseup\<close>, whether the
  \<open>mouseup\<close> happens inside the editor or outside it.\<close>

theorem isInteracting_transitions:
  "isInteracting ext = (mousedown ext \<and> mouseover ext) \<and>
   \<not> isInteracting (newEventsExtension hs st ex exts) \<and>
   isInteracting (deliver (deliver_all (newEventsExtension hs st ex exts) es) (MousedownInside e)) \<and>
   \<not> isInteracting (deliver (deliver_all (newEventsExtension hs st ex exts) es) (MouseupOutside e)) \<and>
   \<not> isInteracting (deliver (deliver_all (newEventsExtension hs st ex exts) es) (MouseupInside e))"
proof -
  let ?s = "deliver_all (newEventsExtension hs st ex exts) es"
  have inv: "listener_attached ?s"
    by (rule listener_attached_deliver_all) (rule listener_attached_new)
  have "\<not> isInteracting (newEventsExtension hs st ex exts)"
    by (simp add: isInteracting_def newEventsExtension_def)
  moreover have "isInteracting (deliver ?s (MousedownInside e))"
    using mousedown_sets_both [of ?s e] by (simp add: isInteracting_def)
  moreover have "\<not> isInteracting (deliver ?s (MouseupOutside e))"
    using mouseup_anywhere_clears [OF inv, of e] by (simp add: isInteracting_def)
  moreover have "\<not> isInteracting (deliver ?s (MouseupInside e))"
    using mouseup_anywhere_clears [OF inv, of e] by (simp add: isInteracting_def)
  ultimately show ?thesis by (simp add: isInteracting_def)
qed

theorem isInteracting_transitions_witness:
  "\<not> isInteracting ex_ext \<and>
   isInteracting (deliver (deliver_all ex_ext [MouseenterEditor 1]) (MousedownInside 2)) \<and>
   \<not> isInteracting
       (deliver (deliver_all ex_ext [MouseenterEditor 1, MousedownInside 2]) (MouseupOutside 3)) \<and>
   \<not> isInteracting
       (deliver (deliver_all ex_ext [MouseenterEditor 1, MousedownInside 2]) (MouseupInside 3))"
  using isInteracting_transitions [of ex_ext ex_handlers ex_state None ex_extensions
      "[MouseenterEditor 1]" 2]
    isInteracting_transitions [of ex_ext ex_handlers ex_state None ex_extensions
      "[MouseenterEditor 1, MousedownInside 2]" 3]
  by (simp add: ex_ext_def)

text \<open>Claim C9. The \<open>mousedown\<close> callback sets the \<open>mouseover\<close> flag together with the
  \<open>mousedown\<close> flag: after a \<open>mousedown\<close> inside the editor \<open>isInteracting()\<close> is true, also
  when a \<open>mouseleave\<close> has just cleared the \<open>mouseover\<close> flag.\<close>

theorem mousedown_sets_mouseover:
  "mouseover (snd (dom_mousedown ext e)) \<and>
   mousedown (snd (dom_mousedown ext e)) \<and>
   isInteracting (snd (dom_mousedown ext e)) \<and>
   \<not> mouseover (snd (dom_mouseleave ext e1)) \<and>
   \<not> isInteracting (snd (dom_mouseleave ext e1)) \<and>
   isInteracting (snd (dom_mousedown (snd (dom_mouseleave ext e1)) e))"
  by (simp add: mousedown_sets_both isInteracting_def)
     (simp add: dom_mouseleave_def Let_def)

theorem mousedown_sets_mouseover_witness:
  "\<not> isInteracting (snd (dom_mouseleave ex_ext 1)) \<and>
   isInteracting (snd (dom_mousedown (snd (dom_mouseleave ex_ext 1)) 2)) \<and>
   isInteracting (deliver_all ex_ext [MouseenterEditor 1, MouseleaveEditor 2, MousedownInside 3])"
  using mousedown_sets_mouseover [of ex_ext 2 1]
    mousedown_sets_mouseover [of "deliver_all ex_ext [MouseenterEditor 1, MouseleaveEditor 2]" 3 1]
  by (simp add: deliver_all_def)

section \<open>Registration at initialisation\<close>

lemma handler_key_iff: "k \<in> set handlerKeys \<longleftrightarrow> k \<noteq> Hover"
  by (cases k) (simp_all add: handlerKeys_def)

lemma handler_keys_only_iff: "handler_keys_only entries \<longleftrightarrow> Hover \<notin> fst ` set entries"
  by (induction entries) (auto simp: handler_keys_only_def handler_key_iff)

lemma handler_keys_only_append:
  "handler_keys_only (a @ b) \<longleftrightarrow> handler_keys_only a \<and> handler_keys_only b"
  by (simp add: handler_keys_only_def)

lemma with_handlers_Nil: "with_handlers ext [] = ext"
  by (simp add: with_handlers_def handlers_of_def)

lemma with_handlers_append:
  "with_handlers (with_handlers ext a) b = with_handlers ext (a @ b)"
  by (simp add: with_handlers_def handlers_of_def fun_eq_iff)

lemma with_handlers_handlers:
  "handlers (with_handlers ext entries) k =
     handlers ext k @ map snd (filter (\<lambda>(key, h). key = k) entries)"
  by (simp add: with_handlers_def handlers_of_def)

lemma addHandler_eq:
  "addHandler k h ext =
     (if k \<in> set handlerKeys then Inr (with_handlers ext [(k, h)]) else Inl TypeError)"
  by (auto simp: addHandler_def with_handlers_def handlers_of_def fun_eq_iff)

lemma addHandlers_eq:
  "addHandlers hs ext =
     (if handler_keys_only hs then Inr (with_handlers ext hs) else Inl TypeError)"
proof (induction hs arbitrary: ext)
  case Nil
  show ?case by (simp add: handler_keys_only_def with_handlers_Nil)
next
  case (Cons a hs)
  obtain key h where a: "a = (key, h)" by (cases a)
  show ?case
  proof (cases "key \<in> set handlerKeys")
    case False
    then show ?thesis by (simp add: a addHandler_eq handler_keys_only_def)
  next
    case True
    have k: "handler_keys_only (a # hs) = handler_keys_only hs"
      using True by (simp add: a handler_keys_only_def)
    have "addHandlers (a # hs) ext = addHandlers hs (with_handlers ext [(key, h)])"
      using True by (simp add: a addHandler_eq)
    also have "\<dots> = (if handler_keys_only hs
                      then Inr (with_handlers (with_handlers ext [(key, h)]) hs)
                      else Inl TypeError)"
      by (rule Cons.IH)
    also have "\<dots> = (if handler_keys_only (a # hs) then Inr (with_handlers ext (a # hs))
                      else Inl TypeError)"
      unfolding k with_handlers_append by (simp add: a)
    finally show ?thesis .
  qed
qed

lemma register_extension_eq:
  "register_extension ext x =
     (if handler_keys_only (exposed_entries x) then Inr (with_handlers ext (exposed_entries x))
      else Inl TypeError)"
  by (simp add: register_extension_def exposed_entries_def addHandlers_eq with_handlers_Nil
      handler_keys_only_def split: option.splits)

lemma register_extensions_eq:
  "register_extensions xs ext =
     (if handler_keys_only (all_exposed xs) then Inr (with_handlers ext (all_exposed xs))
      else Inl TypeError)"
proof (induction xs arbitrary: ext)
  case Nil
  show ?case by (simp add: all_exposed_def handler_keys_only_def with_handlers_Nil)
next
  case (Cons x xs)
  have e: "all_exposed (x # xs) = exposed_entries x @ all_exposed xs"
    by (simp add: all_exposed_def)
  show ?case
  proof (cases "handler_keys_only (exposed_entries x)")
    case False
    then show ?thesis
      by (simp add: register_extension_eq e handler_keys_only_append)
  next
    case True
    have "register_extensions (x # xs) ext =
            register_extensions xs (with_handlers ext (exposed_entries x))"
      using True by (simp add: register_extension_eq)
    also have "\<dots> = (if handler_keys_only (all_exposed xs)
                      then Inr (with_handlers (with_handlers ext (exposed_entries x)) (all_exposed xs))
                      else Inl TypeError)"
      by (rule Cons.IH)
    also have "\<dots> = (if handler_keys_only (all_exposed (x # xs))
                      then Inr (with_handlers ext (all_exposed (x # xs)))
                      else Inl TypeError)"
      unfolding e with_handlers_append handler_keys_only_append using True by simp
    finally show ?thesis .
  qed
qed

lemma onView_eq:
  "onView ext =
     (if managerExclude ext = Some True then Inr ext
      else if handler_keys_only (all_exposed (extensions ext))
      then Inr (with_handlers ext (all_exposed (extensions ext)))
      else Inl TypeError)"
  by (simp add: onView_def register_extensions_eq)

text \<open>Claim C8. \<open>onView\<close> does nothing when the manager's \<open>exclude.clickHandler\<close> is set.
  Otherwise it goes through the extensions of the store; an extension without
  \<open>createEventHandlers\<close> or with \<open>exclude.clickHandler\<close> set contributes nothing; every
  handler the other extensions return from \<open>createEventHandlers\<close> is registered behind
  the handlers already there, in the order of the extensions and of their entries, and
  nothing but the registry changes, as long as no entry has the key \<open>hover\<close>. The
  handler keys are all the kinds but \<open>hover\<close>: with an entry for \<open>hover\<close> among them,
  \<open>onView\<close> raises a \<open>TypeError\<close> instead of registering the handlers.\<close>

theorem onView_registers:
  "onView ext =
     (if managerExclude ext = Some True then Inr ext
      else if Hover \<notin> fst ` set (all_exposed (extensions ext))
      then Inr (ext\<lparr>handlers :=
                  (\<lambda>k. handlers ext k @
                       map snd (filter (\<lambda>(key, h). key = k) (all_exposed (extensions ext))))\<rparr>)
      else Inl TypeError) \<and>
   all_exposed (x # xs) = exposed_entries x @ all_exposed xs \<and> all_exposed [] = [] \<and>
   (createEventHandlers x = None \<or> exclude_clickHandler x = Some True \<longrightarrow>
      exposed_entries x = [] \<and> register_extension ext x = Inr ext) \<and>
   (createEventHandlers x = Some hs \<and> exclude_clickHandler x \<noteq> Some True \<longrightarrow>
      exposed_entries x = hs \<and>
      register_extension ext x =
        (if Hover \<notin> fst ` set hs
         then Inr (ext\<lparr>handlers :=
                     (\<lambda>k. handlers ext k @ map snd (filter (\<lambda>(key, h). key = k) hs))\<rparr>)
         else Inl TypeError))"
proof -
  have w: "\<And>entries. with_handlers ext entries =
      ext\<lparr>handlers := (\<lambda>k. handlers ext k @ map snd (filter (\<lambda>(key, h). key = k) entries))\<rparr>"
    by (simp add: with_handlers_def handlers_of_def)
  have a: "onView ext =
     (if managerExclude ext = Some True then Inr ext
      else if Hover \<notin> fst ` set (all_exposed (extensions ext))
      then Inr (ext\<lparr>handlers :=
                  (\<lambda>k. handlers ext k @
                       map snd (filter (\<lambda>(key, h). key = k) (all_exposed (extensions ext))))\<rparr>)
      else Inl TypeError)"
    unfolding onView_eq handler_keys_only_iff w ..
  have b1: "all_exposed (x # xs) = exposed_entries x @ all_exposed xs"
    by (simp add: all_exposed_def)
  have b2: "all_exposed [] = []"
    by (simp add: all_exposed_def)
  have c: "createEventHandlers x = None \<or> exclude_clickHandler x = Some True \<longrightarrow>
      exposed_entries x = [] \<and> register_extension ext x = Inr ext"
    by (auto simp: exposed_entries_def register_extension_def split: option.splits)
  have d: "createEventHandlers x = Some hs \<and> exclude_clickHandler x \<noteq> Some True \<longrightarrow>
      exposed_entries x = hs \<and>
      register_extension ext x =
        (if Hover \<notin> fst ` set hs
         then Inr (ext\<lparr>handlers :=
                     (\<lambda>k. handlers ext k @ map snd (filter (\<lambda>(key, h). key = k) hs))\<rparr>)
         else Inl TypeError)"
  proof (intro impI, elim conjE)
    assume s: "createEventHandlers x = Some hs" and n: "exclude_clickHandler x \<noteq> Some True"
    have e: "exposed_entries x = hs" using s n by (simp add: exposed_entries_def)
    show "exposed_entries x = hs \<and>
      register_extension ext x =
        (if Hover \<notin> fst ` set hs
         then Inr (ext\<lparr>handlers :=
                     (\<lambda>k. handlers ext k @ map snd (filter (\<lambda>(key, h). key = k) hs))\<rparr>)
         else Inl TypeError)"
      unfolding register_extension_eq e handler_keys_only_iff w by simp
  qed
  show ?thesis by (intro conjI a b1 b2 c d)
qed

theorem onView_registers_witness:
  "map_sum id (\<lambda>ext. (handlers ext Click, handlers ext Contextmenu)) (onView ex_ext) =
     Inr ([h_void, h_true, h_false, h_false, h_void], [h_false, h_true, h_void, h_true]) \<and>
   onView (ex_ext\<lparr>managerExclude := Some True\<rparr>) = Inr (ex_ext\<lparr>managerExclude := Some True\<rparr>) \<and>
   onView (ex_ext\<lparr>extensions := ex_hover_extensions\<rparr>) = Inl TypeError"
proof -
  have x: "all_exposed ex_extensions = [(Click, h_false), (Contextmenu, h_true), (Click, h_void)]"
    by (simp add: all_exposed_def ex_extensions_def exposed_entries_def)
  have y: "all_exposed ex_hover_extensions = [(Click, h_false), (Hover, h_true), (Click, h_void)]"
    by (simp add: all_exposed_def ex_hover_extensions_def exposed_entries_def)
  have f: "managerExclude ex_ext = None \<and> extensions ex_ext = ex_extensions \<and>
      handlers ex_ext = ex_handlers"
    by (simp add: ex_ext_def newEventsExtension_def)
  have "map_sum id (\<lambda>ext. (handlers ext Click, handlers ext Contextmenu)) (onView ex_ext) =
     Inr ([h_void, h_true, h_false, h_false, h_void], [h_false, h_true, h_void, h_true])"
    using onView_registers [of ex_ext, THEN conjunct1]
    by (simp add: f x ex_handlers_def)
  moreover have "onView (ex_ext\<lparr>managerExclude := Some True\<rparr>) =
      Inr (ex_ext\<lparr>managerExclude := Some True\<rparr>)"
    using onView_registers [of "ex_ext\<lparr>managerExclude := Some True\<rparr>", THEN conjunct1]
    by simp
  moreover have "onView (ex_ext\<lparr>extensions := ex_hover_extensions\<rparr>) = Inl TypeError"
    using onView_registers [of "ex_ext\<lparr>extensions := ex_hover_extensions\<rparr>", THEN conjunct1]
    by (simp add: f y)
  ultimately show ?thesis by (intro conjI)
qed

section \<open>The handler chains\<close>

lemma run_early_stops:
  "\<lbrakk>\<forall>g \<in> set pre. \<not> truthy (g p); truthy (h p)\<rbrakk> \<Longrightarrow>
     run_early (pre @ h # post) p = map (\<lambda>g. g p) pre @ [h p]"
  by (induction pre) simp_all

lemma run_early_none:
  "\<forall>g \<in> set hs. \<not> truthy (g p) \<Longrightarrow> run_early hs p = map (\<lambda>g. g p) hs"
  by (induction hs) simp_all

lemma run_handlers_early_stops:
  "\<lbrakk>\<forall>g \<in> set pre. \<not> truthy (g p); truthy (h p)\<rbrakk> \<Longrightarrow>
     run_handlers EarlyReturn (pre @ h # post) p = (True, map (\<lambda>g. g p) pre @ [h p])"
  by (simp add: run_handlers_def run_early_stops list_ex_iff)

lemma run_handlers_early_none:
  "\<forall>g \<in> set hs. \<not> truthy (g p) \<Longrightarrow>
     run_handlers EarlyReturn hs p = (False, map (\<lambda>g. g p) hs)"
  by (simp add: run_handlers_def run_early_none list_ex_iff)

lemma run_handlers_all:
  "run_handlers RunAll hs p = (\<exists>g \<in> set hs. truthy (g p), map (\<lambda>g. g p) hs)"
  by (auto simp: run_handlers_def run_all_def list_ex_iff)

text \<open>\<open>hover\<close> is given to \<open>this.options\<close> like the other kinds, but the decorator does
  not list it among the handler keys: it has no chain.\<close>

lemma hover_not_a_handler_key: "Hover \<notin> set handlerKeys"
  by (simp add: handlerKeys_def)

lemma options_hover: "options ext Hover p = Inl TypeError"
  by (simp add: options_def handlerKeys_def)

lemma options_early:
  "k \<in> {Focus, Blur, Mousedown, Mouseup, Mouseleave, Click} \<Longrightarrow>
     options ext k p = Inr (run_handlers EarlyReturn (handlers ext k) p)"
  by (auto simp: options_def handlerKeys_def policy_of_def)

lemma options_all:
  "k \<in> {Mouseenter, Contextmenu, ClickMark} \<Longrightarrow>
     options ext k p = Inr (run_handlers RunAll (handlers ext k) p)"
  by (auto simp: options_def handlerKeys_def policy_of_def)

section \<open>Click dispatch\<close>

lemma createClickMarkState_handled:
  "createClickMarkState co rp True view state =
     \<lparr>getMark = noop, markRanges = [], cs_view = view, cs_state = state\<rparr>"
  by (simp add: createClickMarkState_def)

lemma createClickMarkState_first:
  "createClickMarkState co rp False view state =
     \<lparr>getMark = lookup_mark (schema state) (push_marks (getMarkRange co rp) (rp_marks rp) []),
      markRanges = push_marks (getMarkRange co rp) (rp_marks rp) [],
      cs_view = view, cs_state = state\<rparr>"
  by (simp add: createClickMarkState_def Let_def)

lemma handleClickOn_first:
  assumes "doc_resolve (currentState ext) pos = Inr rp" and "eventMap ext event = None"
  shows "handleClickOn co ext view pos node nodePos event d =
     (let base = createClickMarkState co rp False view (currentState ext);
          st = click_state_of base (schema (currentState ext)) pos node nodePos d;
          m = mark_chain ext event base;
          c = click_chain ext event st
      in Inr (fst c \<or> fst m, [ClickMarkCall event base (snd m), ClickCall event st (snd c)],
              mark_handled ext event))"
proof -
  have m: "\<And>p. options ext ClickMark p = Inr (run_handlers RunAll (handlers ext ClickMark) p)"
    by (rule options_all) simp
  have c: "\<And>p. options (ext\<lparr>eventMap := (eventMap ext)(event \<mapsto> True)\<rparr>) Click p =
      Inr (run_handlers EarlyReturn (handlers ext Click) p)"
    by (simp add: options_early)
  show ?thesis
    using assms
    by (simp add: handleClickOn_def Let_def split_beta click_state_of_def mark_handled_def
        mark_chain_def click_chain_def m c)
qed

lemma handleClickOn_repeat:
  assumes "doc_resolve (currentState ext) pos = Inr rp" and "eventMap ext event \<noteq> None"
  shows "handleClickOn co ext view pos node nodePos event d =
     (let base = createClickMarkState co rp True view (currentState ext);
          st = click_state_of base (schema (currentState ext)) pos node nodePos d;
          c = click_chain ext event st
      in Inr (fst c, [ClickCall event st (snd c)], mark_handled ext event))"
proof -
  have c: "\<And>p. options (ext\<lparr>eventMap := (eventMap ext)(event \<mapsto> True)\<rparr>) Click p =
      Inr (run_handlers EarlyReturn (handlers ext Click) p)"
    by (simp add: options_early)
  show ?thesis
    using assms
    by (simp add: handleClickOn_def Let_def split_beta click_state_of_def mark_handled_def
        click_chain_def c)
qed

lemma handleClickOn_raises:
  "doc_resolve (currentState ext) pos = Inl err \<Longrightarrow>
     handleClickOn co ext view pos node nodePos event d = Inl err"
  by (simp add: handleClickOn_def)

lemma handleClickOn_ext:
  assumes "handleClickOn co ext view pos node nodePos event d = Inr (r, calls, ext1)"
  shows "ext1 = mark_handled ext event"
proof (cases "doc_resolve (currentState ext) pos")
  case (Inl err)
  with assms show ?thesis by (simp add: handleClickOn_raises)
next
  case (Inr rp)
  show ?thesis
  proof (cases "eventMap ext event = None")
    case True
    with assms Inr show ?thesis by (simp add: handleClickOn_first Let_def)
  next
    case False
    with assms Inr show ?thesis by (simp add: handleClickOn_repeat Let_def)
  qed
qed

text \<open>The other callbacks leave the flags and the listeners alone.\<close>

lemma handleClickOn_keeps_flags:
  "handleClickOn co ext view pos node nodePos event d = Inr (r, calls, ext1) \<Longrightarrow>
     mousedown ext1 = mousedown ext \<and> mouseover ext1 = mouseover ext \<and>
     mouseupListeners ext1 = mouseupListeners ext"
  by (drule handleClickOn_ext) (simp add: mark_handled_def)

lemma onView_keeps_flags:
  "onView ext = Inr ext1 \<Longrightarrow>
     mousedown ext1 = mousedown ext \<and> mouseover ext1 = mouseover ext \<and>
     mouseupListeners ext1 = mouseupListeners ext"
  by (auto simp: onView_eq with_handlers_def split: if_splits)

section \<open>One click, several calls of handleClickOn\<close>

lemma mark_handled_twice: "mark_handled (mark_handled ext event) event = mark_handled ext event"
  by (simp add: mark_handled_def)

lemma repeat_call_mark_handled:
  "repeat_call co (mark_handled ext event) rp view pos event = repeat_call co ext rp view pos event"
  by (rule ext)
     (simp add: repeat_call_def repeat_state_def click_chain_def mark_handled_def split: prod.splits)

lemma repeat_result_mark_handled:
  "(\<lambda>c. fst (click_chain (mark_handled ext event) event
               (repeat_state co (mark_handled ext event) rp view pos c))) =
   (\<lambda>c. fst (click_chain ext event (repeat_state co ext rp view pos c)))"
  by (rule ext)
     (simp add: repeat_state_def click_chain_def mark_handled_def split: prod.splits)

lemma click_calls_repeat:
  assumes "doc_resolve (currentState ext) pos = Inr rp" and "eventMap ext event \<noteq> None"
  shows "click_calls co ext view pos event calls =
           Inr (map (\<lambda>c. fst (click_chain ext event (repeat_state co ext rp view pos c))) calls,
                map (repeat_call co ext rp view pos event) calls,
                if calls = [] then ext else mark_handled ext event)"
  using assms
proof (induction calls arbitrary: ext)
  case Nil
  show ?case by simp
next
  case (Cons a calls)
  obtain node nodePos d where a: "a = (node, nodePos, d)" by (cases a)
  let ?ext1 = "mark_handled ext event"
  have r1: "doc_resolve (currentState ?ext1) pos = Inr rp"
    using Cons.prems(1) by (simp add: mark_handled_def)
  have h1: "eventMap ?ext1 event \<noteq> None" by (simp add: mark_handled_def)
  have first: "handleClickOn co ext view pos node nodePos event d =
      Inr (fst (click_chain ext event (repeat_state co ext rp view pos a)),
           [repeat_call co ext rp view pos event a], ?ext1)"
    by (simp add: handleClickOn_repeat [OF Cons.prems] Let_def repeat_call_def repeat_state_def a)
  have rest: "click_calls co ?ext1 view pos event calls =
      Inr (map (\<lambda>c. fst (click_chain ext event (repeat_state co ext rp view pos c))) calls,
           map (repeat_call co ext rp view pos event) calls, ?ext1)"
    unfolding Cons.IH [OF r1 h1] repeat_call_mark_handled repeat_result_mark_handled
      mark_handled_twice
    by simp
  show ?case
    by (simp add: a first rest)
qed

lemma click_calls_first:
  assumes "doc_resolve (currentState ext) pos = Inr rp" and "eventMap ext event = None"
  shows "click_calls co ext view pos event ((node, nodePos, d) # calls) =
     (let base = createClickMarkState co rp False view (currentState ext);
          st = click_state_of base (schema (currentState ext)) pos node nodePos d
      in Inr ((fst (click_chain ext event st) \<or> fst (mark_chain ext event base)) #
                map (\<lambda>c. fst (click_chain ext event (repeat_state co ext rp view pos c))) calls,
              ClickMarkCall event base (snd (mark_chain ext event base)) #
                ClickCall event st (snd (click_chain ext event st)) #
                map (repeat_call co ext rp view pos event) calls,
              mark_handled ext event))"
proof -
  let ?ext1 = "mark_handled ext event"
  have r1: "doc_resolve (currentState ?ext1) pos = Inr rp"
    using assms(1) by (simp add: mark_handled_def)
  have h1: "eventMap ?ext1 event \<noteq> None" by (simp add: mark_handled_def)
  have rest: "click_calls co ?ext1 view pos event calls =
      Inr (map (\<lambda>c. fst (click_chain ext event (repeat_state co ext rp view pos c))) calls,
           map (repeat_call co ext rp view pos event) calls, ?ext1)"
    unfolding click_calls_repeat [OF r1 h1] repeat_call_mark_handled repeat_result_mark_handled
      mark_handled_twice
    by simp
  show ?thesis
    by (simp add: handleClickOn_first [OF assms] Let_def rest)
qed

lemma ancestor_calls_direct:
  "map (\<lambda>(n, p, d). d) (ancestor_calls ((node, nodePos) # path)) =
     True # replicate (length path) False"
  by (induction path) auto

text \<open>Claim C1. One click reaches \<open>handleClickOn\<close> once for each node of the hit, with the
  same raw event. When the \<open>eventMap\<close> does not hold the event, the first call runs every
  clickMark handler and then the click chain, and puts the event into the \<open>eventMap\<close>;
  every later call for the event, whatever its \<open>direct\<close> flag, runs the click chain only.
  So the clickMark chain is called once and the click chain once in each call, each call
  with the node, the position and the \<open>direct\<close> flag it was given, which the view sets for
  the first call only. When the \<open>eventMap\<close> holds the event already, no call runs the
  clickMark chain. The entries of the \<open>eventMap\<close> for other events are left as they are.\<close>

theorem click_dedup:
  assumes "doc_resolve (currentState ext) pos = Inr rp"
  shows
    "(eventMap ext event = None \<longrightarrow>
        (let base = createClickMarkState co rp False view (currentState ext);
             st = click_state_of base (schema (currentState ext)) pos node nodePos d
         in click_calls co ext view pos event ((node, nodePos, d) # calls) =
              Inr ((fst (click_chain ext event st) \<or>
                      (\<exists>h \<in> set (handlers ext ClickMark). truthy (h (ClickMarkP event base)))) #
                     map (\<lambda>c. fst (click_chain ext event (repeat_state co ext rp view pos c)))
                       calls,
                   ClickMarkCall event base
                       (map (\<lambda>h. h (ClickMarkP event base)) (handlers ext ClickMark)) #
                     ClickCall event st (snd (click_chain ext event st)) #
                     map (repeat_call co ext rp view pos event) calls,
                   ext\<lparr>eventMap := (eventMap ext)(event \<mapsto> True)\<rparr>) \<and>
            direct st = d \<and>
            nodeWithPosition st = \<lparr>nwp_node = Some node, nwp_pos = nodePos\<rparr>)) \<and>
     (eventMap ext event \<noteq> None \<longrightarrow>
        click_calls co ext view pos event calls =
          Inr (map (\<lambda>c. fst (click_chain ext event (repeat_state co ext rp view pos c))) calls,
               map (repeat_call co ext rp view pos event) calls,
               if calls = [] then ext else ext\<lparr>eventMap := (eventMap ext)(event \<mapsto> True)\<rparr>)) \<and>
     direct (repeat_state co ext rp view pos (n, p, f)) = f \<and>
     nodeWithPosition (repeat_state co ext rp view pos (n, p, f)) =
       \<lparr>nwp_node = Some n, nwp_pos = p\<rparr> \<and>
     map (\<lambda>(n, p, d). d) (ancestor_calls ((node, nodePos) # path)) =
       True # replicate (length path) False"
proof (intro conjI impI)
  assume new: "eventMap ext event = None"
  show "let base = createClickMarkState co rp False view (currentState ext);
            st = click_state_of base (schema (currentState ext)) pos node nodePos d
        in click_calls co ext view pos event ((node, nodePos, d) # calls) =
             Inr ((fst (click_chain ext event st) \<or>
                     (\<exists>h \<in> set (handlers ext ClickMark). truthy (h (ClickMarkP event base)))) #
                    map (\<lambda>c. fst (click_chain ext event (repeat_state co ext rp view pos c)))
                      calls,
                  ClickMarkCall event base
                      (map (\<lambda>h. h (ClickMarkP event base)) (handlers ext ClickMark)) #
                    ClickCall event st (snd (click_chain ext event st)) #
                    map (repeat_call co ext rp view pos event) calls,
                  ext\<lparr>eventMap := (eventMap ext)(event \<mapsto> True)\<rparr>) \<and>
           direct st = d \<and>
           nodeWithPosition st = \<lparr>nwp_node = Some node, nwp_pos = nodePos\<rparr>"
    unfolding click_calls_first [OF assms new]
    by (simp add: Let_def mark_chain_def run_handlers_all mark_handled_def click_state_of_def)
next
  assume old: "eventMap ext event \<noteq> None"
  show "click_calls co ext view pos event calls =
          Inr (map (\<lambda>c. fst (click_chain ext event (repeat_state co ext rp view pos c))) calls,
               map (repeat_call co ext rp view pos event) calls,
               if calls = [] then ext else ext\<lparr>eventMap := (eventMap ext)(event \<mapsto> True)\<rparr>)"
    unfolding click_calls_repeat [OF assms old]
    by (simp add: mark_handled_def)
next
  show "direct (repeat_state co ext rp view pos (n, p, f)) = f"
    by (simp add: repeat_state_def click_state_of_def)
  show "nodeWithPosition (repeat_state co ext rp view pos (n, p, f)) =
       \<lparr>nwp_node = Some n, nwp_pos = p\<rparr>"
    by (simp add: repeat_state_def click_state_of_def)
  show "map (\<lambda>(n, p, d). d) (ancestor_calls ((node, nodePos) # path)) =
       True # replicate (length path) False"
    by (rule ancestor_calls_direct)
qed

theorem click_dedup_witness:
  "map_sum id
     (\<lambda>(rs, calls, ext1).
        (rs, map is_click_call calls, map call_results calls, map direct (click_states calls),
         eventMap ext1 9, eventMap ext1 10))
     (click_calls ex_co ex_quiet_ext ex_view 3 9
        (ancestor_calls [(ex_text, 2), (ex_paragraph, 1), (ex_blockquote, 0)])) =
     Inr ([False, False, False], [False, True, True, True],
          [[Some False, None], [None, Some False], [None, Some False], [None, Some False]],
          [True, False, False], Some True, None) \<and>
   map_sum id (\<lambda>(rs, calls, ext1). (rs, map is_click_call calls, map direct (click_states calls)))
     (click_calls ex_co (mark_handled ex_quiet_ext 9) ex_view 3 9 [(ex_paragraph, 1, True)]) =
     Inr ([False], [True], [True])"
proof -
  let ?rp = "\<lparr>rp_pos = 3, rp_root = ex_doc, rp_ancestors = [(ex_blockquote, 0), (ex_paragraph, 1)],
           nodeAfter = Some ex_text, rp_marks = [ex_bold]\<rparr>"
  have r: "doc_resolve (currentState ex_quiet_ext) 3 = Inr ?rp"
    by (simp add: ex_quiet_ext_def newEventsExtension_def ex_state_def ex_resolve_def)
  have r1: "doc_resolve (currentState (mark_handled ex_quiet_ext 9)) 3 = Inr ?rp"
    using r by (simp add: mark_handled_def)
  have e: "eventMap ex_quiet_ext 9 = None"
    by (simp add: ex_quiet_ext_def newEventsExtension_def)
  have e1: "eventMap (mark_handled ex_quiet_ext 9) 9 \<noteq> None"
    by (simp add: mark_handled_def)
  have hs: "handlers ex_quiet_ext = ex_quiet_handlers \<and>
      handlers (mark_handled ex_quiet_ext 9) = ex_quiet_handlers \<and>
      eventMap ex_quiet_ext = Map.empty"
    by (simp add: ex_quiet_ext_def newEventsExtension_def mark_handled_def)
  have a: "ancestor_calls [(ex_text, 2), (ex_paragraph, 1), (ex_blockquote, 0)] =
      (ex_text, 2, True) # [(ex_paragraph, 1, False), (ex_blockquote, 0, False)]"
    by simp
  note first = click_dedup [OF r, where event = 9 and co = ex_co and view = ex_view
      and node = ex_text and nodePos = 2 and d = True
      and calls = "[(ex_paragraph, 1, False), (ex_blockquote, 0, False)]",
      THEN conjunct1, rule_format, OF e, unfolded Let_def, THEN conjunct1]
  note again = click_dedup [OF r1, where event = 9 and co = ex_co and view = ex_view
      and calls = "[(ex_paragraph, 1, True)]",
      THEN conjunct2, THEN conjunct1, rule_format, OF e1]
  have "map_sum id
     (\<lambda>(rs, calls, ext1).
        (rs, map is_click_call calls, map call_results calls, map direct (click_states calls),
         eventMap ext1 9, eventMap ext1 10))
     (click_calls ex_co ex_quiet_ext ex_view 3 9
        (ancestor_calls [(ex_text, 2), (ex_paragraph, 1), (ex_blockquote, 0)])) =
     Inr ([False, False, False], [False, True, True, True],
          [[Some False, None], [None, Some False], [None, Some False], [None, Some False]],
          [True, False, False], Some True, None)"
    unfolding a first
    by (simp add: hs ex_quiet_handlers_def click_chain_def run_handlers_def repeat_call_def
        repeat_state_def click_state_of_def h_void_def h_false_def truthy_def)
  moreover have "map_sum id
       (\<lambda>(rs, calls, ext1). (rs, map is_click_call calls, map direct (click_states calls)))
     (click_calls ex_co (mark_handled ex_quiet_ext 9) ex_view 3 9 [(ex_paragraph, 1, True)]) =
     Inr ([False], [True], [True])"
    unfolding again
    by (simp add: hs ex_quiet_handlers_def click_chain_def run_handlers_def repeat_call_def
        repeat_state_def click_state_of_def h_void_def h_false_def truthy_def)
  ultimately show ?thesis by (intro conjI)
qed

text \<open>Claim C10. In a call of \<open>handleClickOn\<close> for an event that the \<open>eventMap\<close> already
  holds, only the click chain is called, and the state it is given has no mark ranges
  and a \<open>getMark\<close> that returns \<open>undefined\<close> for every argument. In the call for a new
  event the mark ranges of the position are computed, and the clickMark chain and the
  click chain are given these ranges with a \<open>getMark\<close> that looks them up.\<close>

theorem repeat_click_state:
  assumes "doc_resolve (currentState ext) pos = Inr rp"
  shows "(eventMap ext event \<noteq> None \<longrightarrow>
            (\<exists>r st c.
                handleClickOn co ext view pos node nodePos event d =
                  Inr (r, [ClickCall event st c], mark_handled ext event) \<and>
                markRanges st = [] \<and>
                (\<forall>markType. getMark st markType = Inr None))) \<and>
         (eventMap ext event = None \<longrightarrow>
            (\<exists>r base m st c.
                handleClickOn co ext view pos node nodePos event d =
                  Inr (r, [ClickMarkCall event base m, ClickCall event st c],
                       mark_handled ext event) \<and>
                markRanges base = push_marks (getMarkRange co rp) (rp_marks rp) [] \<and>
                markRanges st = markRanges base \<and>
                getMark base = lookup_mark (schema (currentState ext)) (markRanges base) \<and>
                getMark st = getMark base))"
proof (intro conjI impI)
  assume h: "eventMap ext event \<noteq> None"
  show "\<exists>r st c.
          handleClickOn co ext view pos node nodePos event d =
            Inr (r, [ClickCall event st c], mark_handled ext event) \<and>
          markRanges st = [] \<and>
          (\<forall>markType. getMark st markType = Inr None)"
    by (simp add: handleClickOn_repeat [OF assms h] Let_def createClickMarkState_handled
        click_state_of_def noop_def)
next
  assume h: "eventMap ext event = None"
  show "\<exists>r base m st c.
          handleClickOn co ext view pos node nodePos event d =
            Inr (r, [ClickMarkCall event base m, ClickCall event st c],
                 mark_handled ext event) \<and>
          markRanges base = push_marks (getMarkRange co rp) (rp_marks rp) [] \<and>
          markRanges st = markRanges base \<and>
          getMark base = lookup_mark (schema (currentState ext)) (markRanges base) \<and>
          getMark st = getMark base"
    by (simp add: handleClickOn_first [OF assms h] Let_def createClickMarkState_first
        click_state_of_def)
qed

theorem repeat_click_state_witness:
  "(\<exists>r st c.
      handleClickOn ex_co (mark_handled ex_ext 9) ex_view 3 ex_paragraph 1 9 False =
        Inr (r, [ClickCall 9 st c], mark_handled (mark_handled ex_ext 9) 9) \<and>
      markRanges st = [] \<and> getMark st (ByName ''bold'') = Inr None) \<and>
   (\<exists>r base m st c.
      handleClickOn ex_co ex_ext ex_view 3 ex_text 2 9 True =
        Inr (r, [ClickMarkCall 9 base m, ClickCall 9 st c], mark_handled ex_ext 9) \<and>
      markRanges st = [\<lparr>range_from = 2, range_to = 5, range_mark = ex_bold\<rparr>] \<and>
      getMark st (ByName ''bold'') =
        Inr (Some \<lparr>range_from = 2, range_to = 5, range_mark = ex_bold\<rparr>))"
proof -
  let ?rp = "\<lparr>rp_pos = 3, rp_root = ex_doc, rp_ancestors = [(ex_blockquote, 0), (ex_paragraph, 1)],
           nodeAfter = Some ex_text, rp_marks = [ex_bold]\<rparr>"
  have r: "doc_resolve (currentState ex_ext) 3 = Inr ?rp"
    by (simp add: ex_ext_def newEventsExtension_def ex_state_def ex_resolve_def)
  have r1: "doc_resolve (currentState (mark_handled ex_ext 9)) 3 = Inr ?rp"
    using r by (simp add: mark_handled_def)
  have h1: "eventMap (mark_handled ex_ext 9) 9 \<noteq> None"
    by (simp add: mark_handled_def)
  have h: "eventMap ex_ext 9 = None"
    by (simp add: ex_ext_def newEventsExtension_def)
  have sch: "schema (currentState ex_ext) = ex_schema"
    by (simp add: ex_ext_def newEventsExtension_def ex_state_def)
  have ranges: "push_marks (getMarkRange ex_co ?rp) (rp_marks ?rp) [] =
      [\<lparr>range_from = 2, range_to = 5, range_mark = ex_bold\<rparr>]"
    by (simp add: ex_co_def ex_bold_def)
  have look: "lookup_mark ex_schema [\<lparr>range_from = 2, range_to = 5, range_mark = ex_bold\<rparr>]
      (ByName ''bold'') = Inr (Some \<lparr>range_from = 2, range_to = 5, range_mark = ex_bold\<rparr>)"
    by (simp add: lookup_mark_def ex_schema_def invariant_def ex_bold_def)
  have a: "\<exists>r st c.
      handleClickOn ex_co (mark_handled ex_ext 9) ex_view 3 ex_paragraph 1 9 False =
        Inr (r, [ClickCall 9 st c], mark_handled (mark_handled ex_ext 9) 9) \<and>
      markRanges st = [] \<and> getMark st (ByName ''bold'') = Inr None"
    using repeat_click_state [OF r1, of 9 ex_co ex_view ex_paragraph 1 False, THEN conjunct1,
        rule_format, OF h1]
    by blast
  from repeat_click_state [OF r, of 9 ex_co ex_view ex_text 2 True, THEN conjunct2,
      rule_format, OF h]
  obtain r0 base m st c where
    f: "handleClickOn ex_co ex_ext ex_view 3 ex_text 2 9 True =
         Inr (r0, [ClickMarkCall 9 base m, ClickCall 9 st c], mark_handled ex_ext 9)"
      "markRanges base = push_marks (getMarkRange ex_co ?rp) (rp_marks ?rp) []"
      "markRanges st = markRanges base"
      "getMark base = lookup_mark (schema (currentState ex_ext)) (markRanges base)"
      "getMark st = getMark base"
    by blast
  have "markRanges st = [\<lparr>range_from = 2, range_to = 5, range_mark = ex_bold\<rparr>]"
    using f(2,3) ranges by simp
  moreover have "getMark st (ByName ''bold'') =
        Inr (Some \<lparr>range_from = 2, range_to = 5, range_mark = ex_bold\<rparr>)"
    using f(2,4,5) ranges sch look by simp
  ultimately have b: "\<exists>r base m st c.
      handleClickOn ex_co ex_ext ex_view 3 ex_text 2 9 True =
        Inr (r, [ClickMarkCall 9 base m, ClickCall 9 st c], mark_handled ex_ext 9) \<and>
      markRanges st = [\<lparr>range_from = 2, range_to = 5, range_mark = ex_bold\<rparr>] \<and>
      getMark st (ByName ''bold'') =
        Inr (Some \<lparr>range_from = 2, range_to = 5, range_mark = ex_bold\<rparr>)"
    using f(1) by blast
  from a b show ?thesis ..
qed

section \<open>The node chain of hover and contextmenu\<close>

lemma push_nodes_ancestors:
  "k \<le> depth rp \<Longrightarrow>
     push_nodes rp (rev [1 ..< k + 1]) acc =
       Inr (acc @ rev (map ancestor_entry (take k (rp_ancestors rp))))"
proof (induction k arbitrary: acc)
  case 0
  show ?case by simp
next
  case (Suc k)
  have k: "k < length (rp_ancestors rp)" using Suc.prems by (simp add: depth_def)
  have b: "before rp (Suc k) = Inr (snd (rp_ancestors rp ! k))"
    using Suc.prems by (simp add: before_def)
  have n: "node_at rp (Suc k) = Some (fst (rp_ancestors rp ! k))"
    using Suc.prems by (simp add: node_at_def)
  have "push_nodes rp (rev [1 ..< Suc k + 1]) acc =
          push_nodes rp (rev [1 ..< k + 1]) (acc @ [ancestor_entry (rp_ancestors rp ! k)])"
    using Suc.prems by (simp add: b n ancestor_entry_def)
  also have "\<dots> = Inr ((acc @ [ancestor_entry (rp_ancestors rp ! k)]) @
                        rev (map ancestor_entry (take k (rp_ancestors rp))))"
    using Suc.prems by (intro Suc.IH) simp
  also have "\<dots> = Inr (acc @ rev (map ancestor_entry (take (Suc k) (rp_ancestors rp))))"
    using k by (simp add: take_Suc_conv_app_nth)
  finally show ?case .
qed

lemma range_down: "range (d + 1) 1 = Suc d # rev [1 ..< d + 1]"
  by (cases d) (simp_all add: range_def)

text \<open>The chain: the entry of index \<open>depth + 1\<close>, whose node is \<open>nodeAfter\<close> (and
  \<open>$pos.node(depth + 1)\<close>, which is \<open>undefined\<close>, when there is no node after), then the
  ancestors from the innermost container to the ancestor of depth 1.\<close>

lemma push_nodes_chain:
  "push_nodes rp (range (depth rp + 1) 1) [] =
     Inr (\<lparr>nwp_node = nodeAfter rp, nwp_pos = rp_pos rp\<rparr> #
          rev (map ancestor_entry (rp_ancestors rp)))"
proof -
  have b: "before rp (Suc (depth rp)) = Inr (rp_pos rp)" by (simp add: before_def)
  have n: "(if Suc (depth rp) > depth rp \<and> nodeAfter rp \<noteq> None then nodeAfter rp
            else node_at rp (Suc (depth rp))) = nodeAfter rp"
    by (simp add: node_at_def)
  have "push_nodes rp (range (depth rp + 1) 1) [] =
          push_nodes rp (rev [1 ..< depth rp + 1]) [\<lparr>nwp_node = nodeAfter rp, nwp_pos = rp_pos rp\<rparr>]"
    unfolding range_down using b n by (simp del: upt_Suc)
  also have "\<dots> = Inr ([\<lparr>nwp_node = nodeAfter rp, nwp_pos = rp_pos rp\<rparr>] @
                       rev (map ancestor_entry (take (depth rp) (rp_ancestors rp))))"
    by (rule push_nodes_ancestors) simp
  finally show ?thesis by (simp add: depth_def)
qed

lemma push_nodes_chain_Suc:
  "push_nodes rp (range (Suc (depth rp)) (Suc 0)) [] =
     Inr (\<lparr>nwp_node = nodeAfter rp, nwp_pos = rp_pos rp\<rparr> #
          rev (map ancestor_entry (rp_ancestors rp)))"
  using push_nodes_chain [of rp] by simp

lemma mouse_handler_unresolved:
  "getPositionFromEvent co view event = None \<Longrightarrow>
     createMouseEventHandler co fn view event =
       \<lparr>mo_returned = Inr False, mo_props = None, mo_results = [], mo_defaultPrevented = False\<rparr>"
  by (simp add: createMouseEventHandler_def)

lemma mouse_handler_outside:
  assumes "getPositionFromEvent co view event = Some ep"
    and "doc_resolve (view_state view) (ep_pos ep) = Inr rp"
    and "\<not> ep_inside ep > - 1"
  shows "createMouseEventHandler co fn view event =
           (case fn (mouse_props view event [] []) of
              Inl e \<Rightarrow>
                \<lparr>mo_returned = Inl e, mo_props = Some (mouse_props view event [] []),
                 mo_results = [], mo_defaultPrevented = False\<rparr>
            | Inr (isCaptured, rs) \<Rightarrow>
                \<lparr>mo_returned = Inr isCaptured, mo_props = Some (mouse_props view event [] []),
                 mo_results = rs, mo_defaultPrevented = isCaptured\<rparr>)"
  using assms
  by (simp add: createMouseEventHandler_def mouse_props_def Let_def split: sum.splits prod.splits)

lemma mouse_handler_inside:
  assumes "getPositionFromEvent co view event = Some ep"
    and "doc_resolve (view_state view) (ep_pos ep) = Inr rp"
    and "ep_inside ep > - 1"
    and "nodes = \<lparr>nwp_node = nodeAfter rp, nwp_pos = rp_pos rp\<rparr> #
                   rev (map ancestor_entry (rp_ancestors rp))"
    and "marks = push_marks (getMarkRange co rp) (rp_marks rp) []"
  shows "createMouseEventHandler co fn view event =
           (case fn (mouse_props view event nodes marks) of
              Inl e \<Rightarrow>
                \<lparr>mo_returned = Inl e, mo_props = Some (mouse_props view event nodes marks),
                 mo_results = [], mo_defaultPrevented = False\<rparr>
            | Inr (isCaptured, rs) \<Rightarrow>
                \<lparr>mo_returned = Inr isCaptured, mo_props = Some (mouse_props view event nodes marks),
                 mo_results = rs, mo_defaultPrevented = isCaptured\<rparr>)"
  using assms
  by (simp add: createMouseEventHandler_def mouse_props_def Let_def push_nodes_chain_Suc
      split: sum.splits prod.splits)

lemma mouse_handler_raises:
  assumes "getPositionFromEvent co view event = Some ep"
    and "doc_resolve (view_state view) (ep_pos ep) = Inl err"
  shows "createMouseEventHandler co fn view event =
           \<lparr>mo_returned = Inl err, mo_props = None, mo_results = [], mo_defaultPrevented = False\<rparr>"
  using assms by (simp add: createMouseEventHandler_def)

lemma dispatched_props_inside:
  assumes "getPositionFromEvent co view event = Some ep"
    and "doc_resolve (view_state view) (ep_pos ep) = Inr rp"
    and "ep_inside ep > - 1"
  shows "dispatched_props (createMouseEventHandler co fn view event) =
           Some (mouse_props view event
                  (\<lparr>nwp_node = nodeAfter rp, nwp_pos = rp_pos rp\<rparr> #
                   rev (map ancestor_entry (rp_ancestors rp)))
                  (push_marks (getMarkRange co rp) (rp_marks rp) []))"
  unfolding mouse_handler_inside [OF assms refl refl] dispatched_props_def
  by (simp split: sum.splits prod.splits)

lemma dispatched_props_outside:
  assumes "getPositionFromEvent co view event = Some ep"
    and "doc_resolve (view_state view) (ep_pos ep) = Inr rp"
    and "\<not> ep_inside ep > - 1"
  shows "dispatched_props (createMouseEventHandler co fn view event) =
           Some (mouse_props view event [] [])"
  unfolding mouse_handler_outside [OF assms] dispatched_props_def
  by (simp split: sum.splits prod.splits)

lemma dispatched_nodes_inside:
  assumes "getPositionFromEvent co view event = Some ep"
    and "doc_resolve (view_state view) (ep_pos ep) = Inr rp"
    and "ep_inside ep > - 1"
  shows "dispatched_nodes (createMouseEventHandler co fn view event) =
           Some (\<lparr>nwp_node = nodeAfter rp, nwp_pos = rp_pos rp\<rparr> #
                 rev (map ancestor_entry (rp_ancestors rp)))"
  by (simp add: mouse_handler_inside [OF assms refl refl] dispatched_nodes_def mouse_props_def
      split: sum.splits prod.splits)

lemma contextmenu_fn:
  "options ext Contextmenu (MouseP props) =
     Inr (\<exists>h \<in> set (handlers ext Contextmenu). truthy (h (MouseP props)),
          map (\<lambda>h. h (MouseP props)) (handlers ext Contextmenu))"
  by (simp add: options_all run_handlers_all)

text \<open>Claim C7. When \<open>getPositionFromEvent\<close> finds no position for the event, the handler
  returns false, gives nothing to \<open>fn\<close> (so no hover or contextmenu handler runs) and does
  not prevent the default. When it finds a position outside the content of the document
  (\<open>inside\<close> is \<open>-1\<close>), the handler itself does not raise: it calls \<open>fn\<close> with props that
  have an empty node list and an empty mark list, and ends as \<open>fn\<close> ends. For contextmenu
  every handler of the chain is invoked with these props and the handler returns the
  aggregate. For hover, \<open>fn\<close> calls \<open>this.options.hover\<close>, which is not a handler key: the
  call raises a \<open>TypeError\<close> and no hover handler is invoked.\<close>

theorem mouse_resolution_miss:
  "(getPositionFromEvent co view event = None \<longrightarrow>
      createMouseEventHandler co fn view event =
        \<lparr>mo_returned = Inr False, mo_props = None, mo_results = [], mo_defaultPrevented = False\<rparr> \<and>
      dom_contextmenu co ext view event =
        \<lparr>mo_returned = Inr False, mo_props = None, mo_results = [], mo_defaultPrevented = False\<rparr> \<and>
      dom_mouseover co ext view event =
        \<lparr>mo_returned = Inr False, mo_props = None, mo_results = [], mo_defaultPrevented = False\<rparr> \<and>
      dom_mouseout co ext view event =
        \<lparr>mo_returned = Inr False, mo_props = None, mo_results = [], mo_defaultPrevented = False\<rparr>) \<and>
   (getPositionFromEvent co view event = Some ep \<and> ep_inside ep = - 1 \<and>
    doc_resolve (view_state view) (ep_pos ep) = Inr rp \<longrightarrow>
      createMouseEventHandler co fn view event =
        (case fn (mouse_props view event [] []) of
           Inl e \<Rightarrow>
             \<lparr>mo_returned = Inl e, mo_props = Some (mouse_props view event [] []),
              mo_results = [], mo_defaultPrevented = False\<rparr>
         | Inr (isCaptured, rs) \<Rightarrow>
             \<lparr>mo_returned = Inr isCaptured, mo_props = Some (mouse_props view event [] []),
              mo_results = rs, mo_defaultPrevented = isCaptured\<rparr>) \<and>
      mp_nodes (mouse_props view event [] []) = [] \<and>
      mp_marks (mouse_props view event [] []) = [] \<and>
      dom_contextmenu co ext view event =
        \<lparr>mo_returned =
           Inr (\<exists>h \<in> set (handlers ext Contextmenu).
                  truthy (h (MouseP (mouse_props view event [] [])))),
         mo_props = Some (mouse_props view event [] []),
         mo_results =
           map (\<lambda>h. h (MouseP (mouse_props view event [] []))) (handlers ext Contextmenu),
         mo_defaultPrevented =
           (\<exists>h \<in> set (handlers ext Contextmenu).
              truthy (h (MouseP (mouse_props view event [] []))))\<rparr> \<and>
      dom_mouseover co ext view event =
        \<lparr>mo_returned = Inl TypeError, mo_props = Some (mouse_props view event [] []),
         mo_results = [], mo_defaultPrevented = False\<rparr> \<and>
      dom_mouseout co ext view event =
        \<lparr>mo_returned = Inl TypeError, mo_props = Some (mouse_props view event [] []),
         mo_results = [], mo_defaultPrevented = False\<rparr>)"
proof (intro conjI impI)
  assume n: "getPositionFromEvent co view event = None"
  show "createMouseEventHandler co fn view event =
        \<lparr>mo_returned = Inr False, mo_props = None, mo_results = [], mo_defaultPrevented = False\<rparr>"
    by (rule mouse_handler_unresolved [OF n])
  show "dom_contextmenu co ext view event =
        \<lparr>mo_returned = Inr False, mo_props = None, mo_results = [], mo_defaultPrevented = False\<rparr>"
    unfolding dom_contextmenu_def by (rule mouse_handler_unresolved [OF n])
  show "dom_mouseover co ext view event =
        \<lparr>mo_returned = Inr False, mo_props = None, mo_results = [], mo_defaultPrevented = False\<rparr>"
    unfolding dom_mouseover_def by (rule mouse_handler_unresolved [OF n])
  show "dom_mouseout co ext view event =
        \<lparr>mo_returned = Inr False, mo_props = None, mo_results = [], mo_defaultPrevented = False\<rparr>"
    unfolding dom_mouseout_def by (rule mouse_handler_unresolved [OF n])
next
  assume a: "getPositionFromEvent co view event = Some ep \<and> ep_inside ep = - 1 \<and>
    doc_resolve (view_state view) (ep_pos ep) = Inr rp"
  then have p: "getPositionFromEvent co view event = Some ep"
    and r: "doc_resolve (view_state view) (ep_pos ep) = Inr rp"
    and i: "\<not> ep_inside ep > - 1"
    by simp_all
  note out = mouse_handler_outside [OF p r i]
  show "createMouseEventHandler co fn view event =
        (case fn (mouse_props view event [] []) of
           Inl e \<Rightarrow>
             \<lparr>mo_returned = Inl e, mo_props = Some (mouse_props view event [] []),
              mo_results = [], mo_defaultPrevented = False\<rparr>
         | Inr (isCaptured, rs) \<Rightarrow>
             \<lparr>mo_returned = Inr isCaptured, mo_props = Some (mouse_props view event [] []),
              mo_results = rs, mo_defaultPrevented = isCaptured\<rparr>)"
    by (rule out)
  show "mp_nodes (mouse_props view event [] []) = []"
    by (simp add: mouse_props_def)
  show "mp_marks (mouse_props view event [] []) = []"
    by (simp add: mouse_props_def)
  show "dom_contextmenu co ext view event =
        \<lparr>mo_returned =
           Inr (\<exists>h \<in> set (handlers ext Contextmenu).
                  truthy (h (MouseP (mouse_props view event [] [])))),
         mo_props = Some (mouse_props view event [] []),
         mo_results =
           map (\<lambda>h. h (MouseP (mouse_props view event [] []))) (handlers ext Contextmenu),
         mo_defaultPrevented =
           (\<exists>h \<in> set (handlers ext Contextmenu).
              truthy (h (MouseP (mouse_props view event [] []))))\<rparr>"
    unfolding dom_contextmenu_def out contextmenu_fn by simp
  show "dom_mouseover co ext view event =
        \<lparr>mo_returned = Inl TypeError, mo_props = Some (mouse_props view event [] []),
         mo_results = [], mo_defaultPrevented = False\<rparr>"
    unfolding dom_mouseover_def out options_hover by simp
  show "dom_mouseout co ext view event =
        \<lparr>mo_returned = Inl TypeError, mo_props = Some (mouse_props view event [] []),
         mo_results = [], mo_defaultPrevented = False\<rparr>"
    unfolding dom_mouseout_def out options_hover by simp
qed

theorem mouse_resolution_miss_witness:
  "dom_contextmenu ex_co ex_ext ex_view 0 =
     \<lparr>mo_returned = Inr False, mo_props = None, mo_results = [], mo_defaultPrevented = False\<rparr> \<and>
   dom_mouseover ex_co ex_ext ex_view 0 =
     \<lparr>mo_returned = Inr False, mo_props = None, mo_results = [], mo_defaultPrevented = False\<rparr> \<and>
   dispatched_nodes (dom_contextmenu ex_co ex_ext ex_view 1) = Some [] \<and>
   dispatched_marks (dom_contextmenu ex_co ex_ext ex_view 1) = Some [] \<and>
   mo_returned (dom_contextmenu ex_co ex_ext ex_view 1) = Inr True \<and>
   dispatched_results (dom_contextmenu ex_co ex_ext ex_view 1) = Some [Some False, Some True, None] \<and>
   mo_returned (dom_mouseover ex_co ex_ext ex_view 1) = Inl TypeError \<and>
   dispatched_results (dom_mouseover ex_co ex_ext ex_view 1) = None \<and>
   mo_returned (dom_mouseout ex_co ex_ext ex_view 1) = Inl TypeError"
proof -
  have p0: "getPositionFromEvent ex_co ex_view 0 = None"
    by (simp add: ex_co_def)
  have p1: "getPositionFromEvent ex_co ex_view 1 = Some \<lparr>ep_pos = 0, ep_inside = - 1\<rparr> \<and>
      ep_inside \<lparr>ep_pos = 0, ep_inside = - 1\<rparr> = - 1 \<and>
      doc_resolve (view_state ex_view) (ep_pos \<lparr>ep_pos = 0, ep_inside = - 1\<rparr>) =
        Inr \<lparr>rp_pos = 0, rp_root = ex_doc, rp_ancestors = [],
             nodeAfter = Some ex_blockquote, rp_marks = []\<rparr>"
    by (simp add: ex_co_def ex_view_def ex_state_def ex_resolve_def)
  have hs: "handlers ex_ext = ex_handlers"
    by (simp add: ex_ext_def newEventsExtension_def)
  note t0 = mouse_resolution_miss [where co = ex_co and view = ex_view and event = 0
      and ext = ex_ext, THEN conjunct1, rule_format, OF p0]
  note t1 = mouse_resolution_miss [where co = ex_co and view = ex_view and event = 1
      and ext = ex_ext, THEN conjunct2, rule_format, OF p1]
  note menu0 = t0 [THEN conjunct2, THEN conjunct1]
  note over0 = t0 [THEN conjunct2, THEN conjunct2, THEN conjunct1]
  note menu1 = t1 [THEN conjunct2, THEN conjunct2, THEN conjunct2, THEN conjunct1]
  note over1 = t1 [THEN conjunct2, THEN conjunct2, THEN conjunct2, THEN conjunct2, THEN conjunct1]
  note out1 = t1 [THEN conjunct2, THEN conjunct2, THEN conjunct2, THEN conjunct2, THEN conjunct2]
  show ?thesis
    unfolding menu0 over0 menu1 over1 out1
    by (simp add: dispatched_nodes_def dispatched_marks_def dispatched_results_def mouse_props_def
        hs ex_handlers_def h_true_def h_false_def h_void_def truthy_def)
qed

lemma chain_nth_ancestor:
  assumes "1 \<le> i" and "i \<le> depth rp"
  shows "(\<lparr>nwp_node = nodeAfter rp, nwp_pos = rp_pos rp\<rparr> #
            rev (map ancestor_entry (rp_ancestors rp))) ! (depth rp + 1 - i) =
         ancestor_entry (rp_ancestors rp ! (i - 1))"
proof -
  let ?xs = "map ancestor_entry (rp_ancestors rp)"
  have len: "length ?xs = depth rp" by (simp add: depth_def)
  have s: "depth rp + 1 - i = Suc (depth rp - i)" using assms by arith
  have lt: "depth rp - i < length ?xs" using assms len by arith
  have idx: "length ?xs - Suc (depth rp - i) = i - 1" using assms len by arith
  have lt2: "i - 1 < length (rp_ancestors rp)" using assms by (simp add: depth_def)
  have "(\<lparr>nwp_node = nodeAfter rp, nwp_pos = rp_pos rp\<rparr> # rev ?xs) ! (depth rp + 1 - i) =
          rev ?xs ! (depth rp - i)"
    by (simp only: s nth_Cons_Suc)
  also have "\<dots> = ?xs ! (length ?xs - Suc (depth rp - i))"
    by (rule rev_nth [OF lt])
  also have "\<dots> = ?xs ! (i - 1)"
    by (simp only: idx)
  also have "\<dots> = ancestor_entry (rp_ancestors rp ! (i - 1))"
    by (rule nth_map [OF lt2])
  finally show ?thesis .
qed

lemma chain_last:
  assumes "0 < depth rp"
  shows "last (\<lparr>nwp_node = nodeAfter rp, nwp_pos = rp_pos rp\<rparr> #
               rev (map ancestor_entry (rp_ancestors rp))) =
         ancestor_entry (rp_ancestors rp ! 0)"
proof -
  from assms obtain a rest where "rp_ancestors rp = a # rest"
    by (cases "rp_ancestors rp") (simp_all add: depth_def)
  then show ?thesis by simp
qed

text \<open>Claim C2, as the code has it. For a position inside the content, the node list
  given to the hover and contextmenu handlers has \<open>depth + 1\<close> entries, ordered from
  the innermost outwards: the first entry stands at the position itself and holds the
  node after the position when there is one; the entry that follows by \<open>depth + 1 - i\<close>
  places is the ancestor of depth \<open>i\<close> with the position before it, for \<open>i\<close> from \<open>depth\<close>
  down to 1. The last entry is the ancestor of depth 1, not the root of the document
  (depth 0), which the loop never reaches.\<close>

theorem mouse_nodes_chain:
  assumes "getPositionFromEvent co view event = Some ep"
    and "doc_resolve (view_state view) (ep_pos ep) = Inr rp"
    and "ep_inside ep > - 1"
  shows "\<exists>ns. dispatched_nodes (createMouseEventHandler co fn view event) = Some ns \<and>
           length ns = depth rp + 1 \<and>
           nwp_pos (ns ! 0) = rp_pos rp \<and>
           (nodeAfter rp \<noteq> None \<longrightarrow> nwp_node (ns ! 0) = nodeAfter rp) \<and>
           (\<forall>i. 1 \<le> i \<and> i \<le> depth rp \<longrightarrow>
                nwp_node (ns ! (depth rp + 1 - i)) = node_at rp i \<and>
                Inr (nwp_pos (ns ! (depth rp + 1 - i))) = before rp i) \<and>
           (0 < depth rp \<longrightarrow>
                nwp_node (last ns) = node_at rp 1 \<and> Inr (nwp_pos (last ns)) = before rp 1)"
proof -
  let ?ns = "\<lparr>nwp_node = nodeAfter rp, nwp_pos = rp_pos rp\<rparr> #
             rev (map ancestor_entry (rp_ancestors rp))"
  have d: "dispatched_nodes (createMouseEventHandler co fn view event) = Some ?ns"
    by (rule dispatched_nodes_inside [OF assms])
  have l: "length ?ns = depth rp + 1" by (simp add: depth_def)
  have f1: "nwp_pos (?ns ! 0) = rp_pos rp" by simp
  have f2: "nodeAfter rp \<noteq> None \<longrightarrow> nwp_node (?ns ! 0) = nodeAfter rp" by simp
  have a: "\<forall>i. 1 \<le> i \<and> i \<le> depth rp \<longrightarrow>
                nwp_node (?ns ! (depth rp + 1 - i)) = node_at rp i \<and>
                Inr (nwp_pos (?ns ! (depth rp + 1 - i))) = before rp i"
  proof (intro allI impI, elim conjE)
    fix i assume i: "1 \<le> i" "i \<le> depth rp"
    show "nwp_node (?ns ! (depth rp + 1 - i)) = node_at rp i \<and>
          Inr (nwp_pos (?ns ! (depth rp + 1 - i))) = before rp i"
      unfolding chain_nth_ancestor [OF i]
      using i by (simp add: ancestor_entry_def node_at_def before_def)
  qed
  have e: "0 < depth rp \<longrightarrow>
             nwp_node (last ?ns) = node_at rp 1 \<and> Inr (nwp_pos (last ?ns)) = before rp 1"
  proof
    assume p: "0 < depth rp"
    show "nwp_node (last ?ns) = node_at rp 1 \<and> Inr (nwp_pos (last ?ns)) = before rp 1"
      unfolding chain_last [OF p]
      using p by (simp add: ancestor_entry_def node_at_def before_def)
  qed
  show ?thesis
    by (rule exI [of _ ?ns]) (intro conjI d l f1 f2 a e)
qed

theorem mouse_nodes_chain_witness:
  "\<exists>ns. dispatched_nodes (dom_contextmenu ex_co ex_ext ex_view 3) = Some ns \<and>
      length ns = 3 \<and>
      ns ! 0 = \<lparr>nwp_node = Some ex_text, nwp_pos = 3\<rparr> \<and>
      ns ! 1 = \<lparr>nwp_node = Some ex_paragraph, nwp_pos = 1\<rparr> \<and>
      ns ! 2 = \<lparr>nwp_node = Some ex_blockquote, nwp_pos = 0\<rparr> \<and>
      last ns = \<lparr>nwp_node = Some ex_blockquote, nwp_pos = 0\<rparr>"
proof -
  let ?rp = "\<lparr>rp_pos = 3, rp_root = ex_doc, rp_ancestors = [(ex_blockquote, 0), (ex_paragraph, 1)],
           nodeAfter = Some ex_text, rp_marks = [ex_bold]\<rparr>"
  let ?ep = "\<lparr>ep_pos = 3, ep_inside = 2\<rparr>"
  have p: "getPositionFromEvent ex_co ex_view 3 = Some ?ep"
    by (simp add: ex_co_def)
  have r: "doc_resolve (view_state ex_view) (ep_pos ?ep) = Inr ?rp"
    by (simp add: ex_view_def ex_state_def ex_resolve_def)
  have i: "ep_inside ?ep > - 1" by simp
  have dc: "createMouseEventHandler ex_co (\<lambda>props. options ex_ext Contextmenu (MouseP props))
      ex_view 3 = dom_contextmenu ex_co ex_ext ex_view 3"
    by (simp add: dom_contextmenu_def)
  from mouse_nodes_chain [OF p r i, of "\<lambda>props. options ex_ext Contextmenu (MouseP props)"]
  obtain ns where
    n: "dispatched_nodes (createMouseEventHandler ex_co
          (\<lambda>props. options ex_ext Contextmenu (MouseP props)) ex_view 3) = Some ns"
      "length ns = depth ?rp + 1"
      "nwp_pos (ns ! 0) = rp_pos ?rp"
      "nodeAfter ?rp \<noteq> None \<longrightarrow> nwp_node (ns ! 0) = nodeAfter ?rp"
      "\<forall>i. 1 \<le> i \<and> i \<le> depth ?rp \<longrightarrow>
           nwp_node (ns ! (depth ?rp + 1 - i)) = node_at ?rp i \<and>
           Inr (nwp_pos (ns ! (depth ?rp + 1 - i))) = before ?rp i"
      "0 < depth ?rp \<longrightarrow>
           nwp_node (last ns) = node_at ?rp 1 \<and> Inr (nwp_pos (last ns)) = before ?rp 1"
    by (elim exE conjE)
  note n1 = n(1) [unfolded dc]
  have d: "depth ?rp = 2" by (simp add: depth_def)
  have e0: "ns ! 0 = \<lparr>nwp_node = Some ex_text, nwp_pos = 3\<rparr>"
    using n(3,4) by simp
  have e1: "ns ! 1 = \<lparr>nwp_node = Some ex_paragraph, nwp_pos = 1\<rparr>"
    using n(5) [rule_format, of 2] by (simp add: d node_at_def before_def)
  have e2: "ns ! 2 = \<lparr>nwp_node = Some ex_blockquote, nwp_pos = 0\<rparr>"
    using n(5) [rule_format, of 1] by (simp add: d node_at_def before_def)
  have el: "last ns = \<lparr>nwp_node = Some ex_blockquote, nwp_pos = 0\<rparr>"
    using n(6) by (simp add: d node_at_def before_def)
  from n1 n(2) d e0 e1 e2 el show ?thesis by simp
qed

text \<open>The claim as the specification states it fails on a position inside the text of
  the example: the last entry of the chain is the blockquote, the ancestor of depth 1,
  while the root of the resolved position is the document node.\<close>

theorem mouse_nodes_chain_root_counterexample:
  "dispatched_nodes (dom_contextmenu ex_co ex_ext ex_view 3) =
     Some [\<lparr>nwp_node = Some ex_text, nwp_pos = 3\<rparr>,
           \<lparr>nwp_node = Some ex_paragraph, nwp_pos = 1\<rparr>,
           \<lparr>nwp_node = Some ex_blockquote, nwp_pos = 0\<rparr>] \<and>
   map_sum id rp_root (doc_resolve (view_state ex_view) 3) = Inr ex_doc \<and>
   ex_blockquote \<noteq> ex_doc"
proof -
  let ?rp = "\<lparr>rp_pos = 3, rp_root = ex_doc, rp_ancestors = [(ex_blockquote, 0), (ex_paragraph, 1)],
           nodeAfter = Some ex_text, rp_marks = [ex_bold]\<rparr>"
  let ?ep = "\<lparr>ep_pos = 3, ep_inside = 2\<rparr>"
  have p: "getPositionFromEvent ex_co ex_view 3 = Some ?ep"
    by (simp add: ex_co_def)
  have r: "doc_resolve (view_state ex_view) (ep_pos ?ep) = Inr ?rp"
    by (simp add: ex_view_def ex_state_def ex_resolve_def)
  have i: "ep_inside ?ep > - 1" by simp
  have "dispatched_nodes (dom_contextmenu ex_co ex_ext ex_view 3) =
     Some [\<lparr>nwp_node = Some ex_text, nwp_pos = 3\<rparr>,
           \<lparr>nwp_node = Some ex_paragraph, nwp_pos = 1\<rparr>,
           \<lparr>nwp_node = Some ex_blockquote, nwp_pos = 0\<rparr>]"
    unfolding dom_contextmenu_def dispatched_nodes_inside [OF p r i]
    by (simp add: ancestor_entry_def)
  moreover have "map_sum id rp_root (doc_resolve (view_state ex_view) 3) = Inr ex_doc"
    using r by simp
  moreover have "ex_blockquote \<noteq> ex_doc"
    by (simp add: ex_blockquote_def ex_doc_def)
  ultimately show ?thesis by simp
qed

text \<open>Claim C5, at the end of a container. Event 2 of the example is at the end of the
  paragraph, where there is no node after the position. The innermost entry of the
  chain then has no node at all (\<open>$pos.node(depth + 1)\<close> is \<open>undefined\<close>); the container,
  the paragraph, is the second entry; and \<open>getNode\<close> raises a \<open>TypeError\<close> on the first
  entry instead of finding the paragraph.\<close>

theorem chain_at_end_of_container:
  "dispatched_nodes (dom_contextmenu ex_co ex_ext ex_view 2) =
     Some [\<lparr>nwp_node = None, nwp_pos = 5\<rparr>,
           \<lparr>nwp_node = Some ex_paragraph, nwp_pos = 1\<rparr>,
           \<lparr>nwp_node = Some ex_blockquote, nwp_pos = 0\<rparr>] \<and>
   map_sum id nodeAfter (doc_resolve (view_state ex_view) 5) = Inr None \<and>
   map_sum id (\<lambda>rp. node_at rp (depth rp)) (doc_resolve (view_state ex_view) 5) =
     Inr (Some ex_paragraph) \<and>
   mouse_getNode (schema (view_state ex_view))
     [\<lparr>nwp_node = None, nwp_pos = 5\<rparr>,
      \<lparr>nwp_node = Some ex_paragraph, nwp_pos = 1\<rparr>,
      \<lparr>nwp_node = Some ex_blockquote, nwp_pos = 0\<rparr>] (ByName ''paragraph'') = Inl TypeError"
proof -
  let ?rp = "\<lparr>rp_pos = 5, rp_root = ex_doc, rp_ancestors = [(ex_blockquote, 0), (ex_paragraph, 1)],
           nodeAfter = None, rp_marks = [ex_bold]\<rparr>"
  let ?ep = "\<lparr>ep_pos = 5, ep_inside = 1\<rparr>"
  have p: "getPositionFromEvent ex_co ex_view 2 = Some ?ep"
    by (simp add: ex_co_def)
  have r: "doc_resolve (view_state ex_view) (ep_pos ?ep) = Inr ?rp"
    by (simp add: ex_view_def ex_state_def ex_resolve_def)
  have i: "ep_inside ?ep > - 1" by simp
  have "dispatched_nodes (dom_contextmenu ex_co ex_ext ex_view 2) =
     Some [\<lparr>nwp_node = None, nwp_pos = 5\<rparr>,
           \<lparr>nwp_node = Some ex_paragraph, nwp_pos = 1\<rparr>,
           \<lparr>nwp_node = Some ex_blockquote, nwp_pos = 0\<rparr>]"
    unfolding dom_contextmenu_def dispatched_nodes_inside [OF p r i]
    by (simp add: ancestor_entry_def)
  moreover have "map_sum id nodeAfter (doc_resolve (view_state ex_view) 5) = Inr None"
    using r by simp
  moreover have "map_sum id (\<lambda>rp. node_at rp (depth rp)) (doc_resolve (view_state ex_view) 5) =
     Inr (Some ex_paragraph)"
    using r by (simp add: node_at_def depth_def)
  moreover have "mouse_getNode (schema (view_state ex_view))
     [\<lparr>nwp_node = None, nwp_pos = 5\<rparr>,
      \<lparr>nwp_node = Some ex_paragraph, nwp_pos = 1\<rparr>,
      \<lparr>nwp_node = Some ex_blockquote, nwp_pos = 0\<rparr>] (ByName ''paragraph'') = Inl TypeError"
    by (simp add: mouse_getNode_def ex_view_def ex_state_def ex_schema_def invariant_def)
  ultimately show ?thesis by simp
qed

section \<open>The dispatch policies\<close>

lemma dom_results:
  "fst (dom_focus ext e) = Inr (run_handlers EarlyReturn (handlers ext Focus) (EventP e))"
  "fst (dom_blur ext e) = Inr (run_handlers EarlyReturn (handlers ext Blur) (EventP e))"
  "fst (dom_mousedown ext e) = Inr (run_handlers EarlyReturn (handlers ext Mousedown) (EventP e))"
  "fst (dom_mouseup ext e) = Inr (run_handlers EarlyReturn (handlers ext Mouseup) (EventP e))"
  "fst (dom_mouseleave ext e) = Inr (run_handlers EarlyReturn (handlers ext Mouseleave) (EventP e))"
  "fst (dom_mouseenter ext e) = Inr (run_handlers RunAll (handlers ext Mouseenter) (EventP e))"
  by (simp_all add: dom_focus_def dom_blur_def dom_mousedown_def dom_mouseup_def
      dom_mouseleave_def dom_mouseenter_def Let_def options_early options_all
      startMouseover_def endMouseover_def)

lemma dom_mouse_results:
  assumes "getPositionFromEvent co view event = Some ep"
    and "doc_resolve (view_state view) (ep_pos ep) = Inr rp"
  shows "\<exists>props.
           dispatched_props (dom_contextmenu co ext view event) = Some props \<and>
           mo_returned (dom_contextmenu co ext view event) =
             Inr (fst (run_handlers RunAll (handlers ext Contextmenu) (MouseP props))) \<and>
           mo_results (dom_contextmenu co ext view event) =
             snd (run_handlers RunAll (handlers ext Contextmenu) (MouseP props)) \<and>
           dispatched_props (dom_mouseover co ext view event) = Some props \<and>
           mo_returned (dom_mouseover co ext view event) = Inl TypeError \<and>
           mo_results (dom_mouseover co ext view event) = [] \<and>
           dispatched_props (dom_mouseout co ext view event) = Some props \<and>
           mo_returned (dom_mouseout co ext view event) = Inl TypeError \<and>
           mo_results (dom_mouseout co ext view event) = []"
proof (cases "ep_inside ep > - 1")
  case True
  note h = mouse_handler_inside [OF assms True refl refl]
  show ?thesis
    unfolding dom_contextmenu_def dom_mouseover_def dom_mouseout_def h options_hover
      dispatched_props_def
    by (simp add: options_all split_beta)
next
  case False
  note h = mouse_handler_outside [OF assms False]
  show ?thesis
    unfolding dom_contextmenu_def dom_mouseover_def dom_mouseout_def h options_hover
      dispatched_props_def
    by (simp add: options_all split_beta)
qed

text \<open>Claim C4. An early-return chain stops at the first handler that returns a truthy
  value: the handlers behind it are not invoked and the aggregate is true; when no
  handler returns a truthy value every handler has run and the aggregate is false. A
  run-all chain invokes every handler, and its aggregate is the disjunction of their
  results. The callbacks for focus, blur, mousedown, mouseup and mouseleave return what
  the early-return chain of their kind gives on the raw event, and the callback for
  mouseenter what the run-all chain of its kind gives. For an event with a position, the
  contextmenu callback returns what the run-all chain of its kind gives on the props. In
  a call of \<open>handleClickOn\<close> for a new event, the run-all clickMark chain is called first
  and the early-return click chain after it, whatever the clickMark chain returned. The
  \<open>mouseover\<close> and \<open>mouseout\<close> callbacks build the props and call \<open>this.options.hover\<close>,
  which raises a \<open>TypeError\<close>, \<open>hover\<close> being no handler key: no hover handler is invoked,
  run-all or otherwise.\<close>

theorem dispatch_policies:
  "(\<forall>pre h post.
      (\<forall>g \<in> set pre. \<not> truthy (g p)) \<and> truthy (h p) \<longrightarrow>
      run_handlers EarlyReturn (pre @ h # post) p = (True, map (\<lambda>g. g p) pre @ [h p])) \<and>
   ((\<forall>g \<in> set hs. \<not> truthy (g p)) \<longrightarrow>
      run_handlers EarlyReturn hs p = (False, map (\<lambda>g. g p) hs)) \<and>
   run_handlers RunAll hs p = (\<exists>g \<in> set hs. truthy (g p), map (\<lambda>g. g p) hs) \<and>
   fst (dom_focus ext e) = Inr (run_handlers EarlyReturn (handlers ext Focus) (EventP e)) \<and>
   fst (dom_blur ext e) = Inr (run_handlers EarlyReturn (handlers ext Blur) (EventP e)) \<and>
   fst (dom_mousedown ext e) =
     Inr (run_handlers EarlyReturn (handlers ext Mousedown) (EventP e)) \<and>
   fst (dom_mouseup ext e) = Inr (run_handlers EarlyReturn (handlers ext Mouseup) (EventP e)) \<and>
   fst (dom_mouseleave ext e) =
     Inr (run_handlers EarlyReturn (handlers ext Mouseleave) (EventP e)) \<and>
   fst (dom_mouseenter ext e) = Inr (run_handlers RunAll (handlers ext Mouseenter) (EventP e)) \<and>
   (doc_resolve (currentState ext) pos = Inr rp \<and> eventMap ext event = None \<longrightarrow>
      (let base = createClickMarkState co rp False view (currentState ext);
           st = click_state_of base (schema (currentState ext)) pos node nodePos d;
           m = run_handlers RunAll (handlers ext ClickMark) (ClickMarkP event base);
           c = run_handlers EarlyReturn (handlers ext Click) (ClickP event st)
       in handleClickOn co ext view pos node nodePos event d =
            Inr (fst c \<or> fst m, [ClickMarkCall event base (snd m), ClickCall event st (snd c)],
                 mark_handled ext event))) \<and>
   (getPositionFromEvent co view mouse_event = Some ep \<and>
    doc_resolve (view_state view) (ep_pos ep) = Inr mrp \<longrightarrow>
      (\<exists>props.
          dispatched_props (dom_contextmenu co ext view mouse_event) = Some props \<and>
          mo_returned (dom_contextmenu co ext view mouse_event) =
            Inr (fst (run_handlers RunAll (handlers ext Contextmenu) (MouseP props))) \<and>
          mo_results (dom_contextmenu co ext view mouse_event) =
            snd (run_handlers RunAll (handlers ext Contextmenu) (MouseP props)) \<and>
          dispatched_props (dom_mouseover co ext view mouse_event) = Some props \<and>
          mo_returned (dom_mouseover co ext view mouse_event) = Inl TypeError \<and>
          mo_results (dom_mouseover co ext view mouse_event) = [] \<and>
          dispatched_props (dom_mouseout co ext view mouse_event) = Some props \<and>
          mo_returned (dom_mouseout co ext view mouse_event) = Inl TypeError \<and>
          mo_results (dom_mouseout co ext view mouse_event) = [])) \<and>
   options ext Hover p = Inl TypeError"
proof -
  have early: "\<forall>pre h post.
      (\<forall>g \<in> set pre. \<not> truthy (g p)) \<and> truthy (h p) \<longrightarrow>
      run_handlers EarlyReturn (pre @ h # post) p = (True, map (\<lambda>g. g p) pre @ [h p])"
    by (intro allI impI, elim conjE) (rule run_handlers_early_stops)
  have none: "(\<forall>g \<in> set hs. \<not> truthy (g p)) \<longrightarrow>
      run_handlers EarlyReturn hs p = (False, map (\<lambda>g. g p) hs)"
    by (intro impI) (rule run_handlers_early_none)
  have click: "doc_resolve (currentState ext) pos = Inr rp \<and> eventMap ext event = None \<longrightarrow>
      (let base = createClickMarkState co rp False view (currentState ext);
           st = click_state_of base (schema (currentState ext)) pos node nodePos d;
           m = run_handlers RunAll (handlers ext ClickMark) (ClickMarkP event base);
           c = run_handlers EarlyReturn (handlers ext Click) (ClickP event st)
       in handleClickOn co ext view pos node nodePos event d =
            Inr (fst c \<or> fst m, [ClickMarkCall event base (snd m), ClickCall event st (snd c)],
                 mark_handled ext event))"
  proof (intro impI, elim conjE)
    assume r: "doc_resolve (currentState ext) pos = Inr rp" and n: "eventMap ext event = None"
    show "let base = createClickMarkState co rp False view (currentState ext);
           st = click_state_of base (schema (currentState ext)) pos node nodePos d;
           m = run_handlers RunAll (handlers ext ClickMark) (ClickMarkP event base);
           c = run_handlers EarlyReturn (handlers ext Click) (ClickP event st)
       in handleClickOn co ext view pos node nodePos event d =
            Inr (fst c \<or> fst m, [ClickMarkCall event base (snd m), ClickCall event st (snd c)],
                 mark_handled ext event)"
      unfolding handleClickOn_first [OF r n] mark_chain_def click_chain_def Let_def ..
  qed
  have mouse: "getPositionFromEvent co view mouse_event = Some ep \<and>
    doc_resolve (view_state view) (ep_pos ep) = Inr mrp \<longrightarrow>
      (\<exists>props.
          dispatched_props (dom_contextmenu co ext view mouse_event) = Some props \<and>
          mo_returned (dom_contextmenu co ext view mouse_event) =
            Inr (fst (run_handlers RunAll (handlers ext Contextmenu) (MouseP props))) \<and>
          mo_results (dom_contextmenu co ext view mouse_event) =
            snd (run_handlers RunAll (handlers ext Contextmenu) (MouseP props)) \<and>
          dispatched_props (dom_mouseover co ext view mouse_event) = Some props \<and>
          mo_returned (dom_mouseover co ext view mouse_event) = Inl TypeError \<and>
          mo_results (dom_mouseover co ext view mouse_event) = [] \<and>
          dispatched_props (dom_mouseout co ext view mouse_event) = Some props \<and>
          mo_returned (dom_mouseout co ext view mouse_event) = Inl TypeError \<and>
          mo_results (dom_mouseout co ext view mouse_event) = [])"
    by (intro impI, elim conjE) (rule dom_mouse_results)
  show ?thesis
    by (intro conjI early none run_handlers_all dom_results click mouse options_hover)
qed

theorem dispatch_policies_witness:
  "fst (dom_mousedown ex_ext 5) = Inr (True, [Some False, Some True]) \<and>
   fst (dom_focus ex_ext 5) = Inr (False, []) \<and>
   fst (dom_mouseenter ex_ext 5) = Inr (True, [Some True, None]) \<and>
   mo_returned (dom_contextmenu ex_co ex_ext ex_view 3) = Inr True \<and>
   mo_results (dom_contextmenu ex_co ex_ext ex_view 3) = [Some False, Some True, None] \<and>
   mo_returned (dom_mouseover ex_co ex_ext ex_view 3) = Inl TypeError \<and>
   mo_results (dom_mouseover ex_co ex_ext ex_view 3) = [] \<and>
   mo_returned (dom_mouseout ex_co ex_ext ex_view 3) = Inl TypeError \<and>
   map_sum id (\<lambda>(r, calls, ext1). (r, map is_click_call calls, map call_results calls))
     (handleClickOn ex_co ex_ext ex_view 3 ex_text 2 9 True) =
     Inr (True, [False, True], [[Some True, Some False], [None, Some True]])"
proof -
  let ?rp = "\<lparr>rp_pos = 3, rp_root = ex_doc, rp_ancestors = [(ex_blockquote, 0), (ex_paragraph, 1)],
           nodeAfter = Some ex_text, rp_marks = [ex_bold]\<rparr>"
  let ?ep = "\<lparr>ep_pos = 3, ep_inside = 2\<rparr>"
  have hs: "handlers ex_ext = ex_handlers"
    by (simp add: ex_ext_def newEventsExtension_def)
  have pre: "(\<forall>g \<in> set [h_false]. \<not> truthy (g (EventP 5))) \<and> truthy (h_true (EventP 5))"
    by (simp add: h_false_def h_true_def truthy_def)
  have none: "\<forall>g \<in> set []. \<not> truthy (g (EventP 5))"
    by simp
  have click: "doc_resolve (currentState ex_ext) 3 = Inr ?rp \<and> eventMap ex_ext 9 = None"
    by (simp add: ex_ext_def newEventsExtension_def ex_state_def ex_resolve_def)
  have mouse: "getPositionFromEvent ex_co ex_view 3 = Some ?ep \<and>
      doc_resolve (view_state ex_view) (ep_pos ?ep) = Inr ?rp"
    by (simp add: ex_co_def ex_view_def ex_state_def ex_resolve_def)
  note t = dispatch_policies [where ext = ex_ext and e = 5 and p = "EventP 5" and hs = "[]"
      and pos = 3 and event = 9 and co = ex_co and view = ex_view and node = ex_text
      and nodePos = 2 and d = True and mouse_event = 3]
  note stops = t [THEN conjunct1, rule_format, of "[h_false]" h_true "[h_void]", OF pre]
  note quiet = t [THEN conjunct2, THEN conjunct1, THEN mp, OF none]
  note t3 = t [THEN conjunct2, THEN conjunct2]
  note all = dispatch_policies [where p = "EventP 5" and hs = "[h_true, h_void]",
      THEN conjunct2, THEN conjunct2, THEN conjunct1]
  note focus = t3 [THEN conjunct2, THEN conjunct1]
  note t5 = t3 [THEN conjunct2, THEN conjunct2]
  note mousedown = t5 [THEN conjunct2, THEN conjunct1]
  note t7 = t5 [THEN conjunct2, THEN conjunct2]
  note t9 = t7 [THEN conjunct2, THEN conjunct2]
  note mouseenter = t9 [THEN conjunct1]
  note clicks = t9 [THEN conjunct2, THEN conjunct1, rule_format, OF click, unfolded Let_def]
  note mouses = t9 [THEN conjunct2, THEN conjunct2, THEN conjunct1, rule_format, OF mouse]
  have a: "fst (dom_mousedown ex_ext 5) = Inr (True, [Some False, Some True])"
    using stops unfolding mousedown
    by (simp add: hs ex_handlers_def h_false_def h_true_def)
  have b: "fst (dom_focus ex_ext 5) = Inr (False, [])"
    using quiet unfolding focus by (simp add: hs ex_handlers_def)
  have c: "fst (dom_mouseenter ex_ext 5) = Inr (True, [Some True, None])"
    using all unfolding mouseenter
    by (simp add: hs ex_handlers_def h_true_def h_void_def truthy_def)
  from mouses obtain props where
    m: "mo_returned (dom_contextmenu ex_co ex_ext ex_view 3) =
          Inr (fst (run_handlers RunAll (handlers ex_ext Contextmenu) (MouseP props)))"
      "mo_results (dom_contextmenu ex_co ex_ext ex_view 3) =
          snd (run_handlers RunAll (handlers ex_ext Contextmenu) (MouseP props))"
      "mo_returned (dom_mouseover ex_co ex_ext ex_view 3) = Inl TypeError"
      "mo_results (dom_mouseover ex_co ex_ext ex_view 3) = []"
      "mo_returned (dom_mouseout ex_co ex_ext ex_view 3) = Inl TypeError"
    by (elim exE conjE)
  have d: "mo_returned (dom_contextmenu ex_co ex_ext ex_view 3) = Inr True \<and>
      mo_results (dom_contextmenu ex_co ex_ext ex_view 3) = [Some False, Some True, None]"
    unfolding m
    by (simp add: hs ex_handlers_def run_handlers_def run_all_def h_true_def h_false_def
        h_void_def truthy_def)
  have e: "map_sum id (\<lambda>(r, calls, ext1). (r, map is_click_call calls, map call_results calls))
     (handleClickOn ex_co ex_ext ex_view 3 ex_text 2 9 True) =
     Inr (True, [False, True], [[Some True, Some False], [None, Some True]])"
    unfolding clicks
    by (simp add: hs ex_handlers_def run_handlers_def run_all_def h_true_def h_false_def
        h_void_def truthy_def)
  from a b c d m(3,4,5) e show ?thesis by simp
qed

section \<open>Lookups of node and mark types\<close>

lemma click_getNode_missing:
  "schema_nodes sch s = None \<Longrightarrow>
     click_getNode sch node nodePos (ByName s) =
       Inl (InvariantViolation ''The node being checked does not exist'')"
  by (simp add: click_getNode_def invariant_def)

lemma click_getNode_other:
  "\<lbrakk>schema_nodes sch s = Some t; t \<noteq> node_type node\<rbrakk> \<Longrightarrow>
     click_getNode sch node nodePos (ByName s) = Inr None"
  by (simp add: click_getNode_def invariant_def)

lemma mouse_getNode_missing:
  "schema_nodes sch s = None \<Longrightarrow>
     mouse_getNode sch nodes (ByName s) =
       Inl (InvariantViolation ''The node being checked does not exist'')"
  by (simp add: mouse_getNode_def invariant_def)

lemma find_node_other:
  "list_all (\<lambda>e. nwp_node e \<noteq> None \<and> map_option node_type (nwp_node e) \<noteq> Some t) nodes \<Longrightarrow>
     find_node t nodes = Inr None"
  by (induction nodes) (auto split: option.splits)

lemma mouse_getNode_other:
  "\<lbrakk>schema_nodes sch s = Some t;
    list_all (\<lambda>e. nwp_node e \<noteq> None \<and> map_option node_type (nwp_node e) \<noteq> Some t) nodes\<rbrakk> \<Longrightarrow>
     mouse_getNode sch nodes (ByName s) = Inr None"
  by (simp add: mouse_getNode_def invariant_def find_node_other)

lemma lookup_mark_missing:
  "schema_marks sch s = None \<Longrightarrow>
     lookup_mark sch ranges (ByName s) =
       Inl (InvariantViolation
             (''The mark '' @ s @ '' being checked does not exist within the editor schema.''))"
  by (simp add: lookup_mark_def invariant_def)

lemma lookup_mark_other:
  "\<lbrakk>schema_marks sch s = Some t; list_all (\<lambda>r. mark_type (range_mark r) \<noteq> t) ranges\<rbrakk> \<Longrightarrow>
     lookup_mark sch ranges (ByName s) = Inr None"
  by (simp add: lookup_mark_def invariant_def find_None_iff list_all_iff)

lemma click_payload_lookups:
  assumes "doc_resolve (currentState ext) pos = Inr rp"
  shows "\<exists>r calls.
           handleClickOn co ext view pos node nodePos event d =
             Inr (r, calls, mark_handled ext event) \<and>
           list_all
             (\<lambda>st. getNode st = click_getNode (schema (currentState ext)) node nodePos \<and>
                    getMark st =
                      (if eventMap ext event = None
                       then lookup_mark (schema (currentState ext)) (markRanges st)
                       else noop))
             (click_states calls) \<and>
           list_all (\<lambda>b. getMark b = lookup_mark (schema (currentState ext)) (markRanges b))
             (click_mark_states calls)"
proof (cases "eventMap ext event = None")
  case True
  show ?thesis
    using True
    by (simp add: handleClickOn_first [OF assms True] Let_def createClickMarkState_first
        click_state_of_def)
next
  case False
  then have ne: "(eventMap ext event = None) = False" by simp
  show ?thesis
    by (simp add: handleClickOn_repeat [OF assms False] Let_def createClickMarkState_handled
        click_state_of_def ne)
qed

lemma mouse_payload_lookups:
  assumes "getPositionFromEvent co view event = Some ep"
    and "doc_resolve (view_state view) (ep_pos ep) = Inr rp"
  shows "\<exists>props.
           dispatched_props (createMouseEventHandler co fn view event) = Some props \<and>
           mp_getNode props = mouse_getNode (schema (view_state view)) (mp_nodes props) \<and>
           mp_getMark props = lookup_mark (schema (view_state view)) (mp_marks props)"
proof (cases "ep_inside ep > - 1")
  case True
  show ?thesis
    by (simp add: dispatched_props_inside [OF assms True] mouse_props_def)
next
  case False
  show ?thesis
    by (simp add: dispatched_props_outside [OF assms False] mouse_props_def)
qed

text \<open>Claim C6, as the code has it. The click state's \<open>getNode\<close>, the \<open>getNode\<close> and
  \<open>getMark\<close> of the hover and contextmenu props, and the \<open>getMark\<close> of the state built for
  a new event (given to the clickMark chain and to the click chain of that call) raise
  an invariant violation for a name that the schema does not have, and return
  \<open>undefined\<close> for a type of the schema that the node, the nodes of the chain (when each
  entry has a node) or the mark ranges do not have. In a call of \<open>handleClickOn\<close> for an
  event the \<open>eventMap\<close> already holds, the click state's \<open>getMark\<close> is \<open>noop\<close>: it returns
  \<open>undefined\<close> for every argument, a name missing from the schema included.\<close>

theorem lookup_faults:
  "(schema_nodes sch s = None \<longrightarrow>
      click_getNode sch node nodePos (ByName s) =
        Inl (InvariantViolation ''The node being checked does not exist'') \<and>
      mouse_getNode sch nodes (ByName s) =
        Inl (InvariantViolation ''The node being checked does not exist'')) \<and>
   (schema_marks sch s = None \<longrightarrow>
      lookup_mark sch ranges (ByName s) =
        Inl (InvariantViolation
              (''The mark '' @ s @ '' being checked does not exist within the editor schema.''))) \<and>
   (schema_nodes sch s = Some t \<and> t \<noteq> node_type node \<longrightarrow>
      click_getNode sch node nodePos (ByName s) = Inr None) \<and>
   (schema_nodes sch s = Some t \<and>
    list_all (\<lambda>e. nwp_node e \<noteq> None \<and> map_option node_type (nwp_node e) \<noteq> Some t) nodes \<longrightarrow>
      mouse_getNode sch nodes (ByName s) = Inr None) \<and>
   (schema_marks sch s = Some mt \<and> list_all (\<lambda>r. mark_type (range_mark r) \<noteq> mt) ranges \<longrightarrow>
      lookup_mark sch ranges (ByName s) = Inr None) \<and>
   (noop (ByName s) :: error + GetMarkRange option) = Inr None \<and>
   (doc_resolve (currentState ext) pos = Inr rp \<longrightarrow>
      (\<exists>r calls.
          handleClickOn co ext view pos node nodePos event d =
            Inr (r, calls, mark_handled ext event) \<and>
          list_all
            (\<lambda>st. getNode st = click_getNode (schema (currentState ext)) node nodePos \<and>
                   getMark st =
                     (if eventMap ext event = None
                      then lookup_mark (schema (currentState ext)) (markRanges st)
                      else noop))
            (click_states calls) \<and>
          list_all (\<lambda>b. getMark b = lookup_mark (schema (currentState ext)) (markRanges b))
            (click_mark_states calls))) \<and>
   (getPositionFromEvent co view mouse_event = Some ep \<and>
    doc_resolve (view_state view) (ep_pos ep) = Inr mrp \<longrightarrow>
      (\<exists>props.
          dispatched_props (createMouseEventHandler co fn view mouse_event) = Some props \<and>
          mp_getNode props = mouse_getNode (schema (view_state view)) (mp_nodes props) \<and>
          mp_getMark props = lookup_mark (schema (view_state view)) (mp_marks props)))"
  using click_getNode_missing [of sch s node nodePos] mouse_getNode_missing [of sch s nodes]
    lookup_mark_missing [of sch s ranges] click_getNode_other [of sch s t node nodePos]
    mouse_getNode_other [of sch s t nodes] lookup_mark_other [of sch s mt ranges]
    click_payload_lookups [of ext pos rp co view node nodePos event d]
    mouse_payload_lookups [of co view mouse_event ep mrp fn]
  by (intro conjI impI) (simp_all add: noop_def)

theorem lookup_faults_witness:
  "click_getNode ex_schema ex_paragraph 1 (ByName ''ghost'') =
     Inl (InvariantViolation ''The node being checked does not exist'') \<and>
   mouse_getNode ex_schema
     [\<lparr>nwp_node = Some ex_text, nwp_pos = 3\<rparr>, \<lparr>nwp_node = Some ex_paragraph, nwp_pos = 1\<rparr>]
     (ByName ''ghost'') =
     Inl (InvariantViolation ''The node being checked does not exist'') \<and>
   lookup_mark ex_schema [\<lparr>range_from = 2, range_to = 5, range_mark = ex_bold\<rparr>] (ByName ''ghost'') =
     Inl (InvariantViolation
           ''The mark ghost being checked does not exist within the editor schema.'') \<and>
   click_getNode ex_schema ex_paragraph 1 (ByName ''image'') = Inr None \<and>
   mouse_getNode ex_schema
     [\<lparr>nwp_node = Some ex_text, nwp_pos = 3\<rparr>, \<lparr>nwp_node = Some ex_paragraph, nwp_pos = 1\<rparr>]
     (ByName ''image'') = Inr None \<and>
   lookup_mark ex_schema [\<lparr>range_from = 2, range_to = 5, range_mark = ex_bold\<rparr>] (ByName ''italic'') =
     Inr None \<and>
   (\<exists>r calls.
      handleClickOn ex_co ex_ext ex_view 3 ex_text 2 9 True = Inr (r, calls, mark_handled ex_ext 9) \<and>
      list_all (\<lambda>st. getNode st (ByName ''ghost'') =
                  Inl (InvariantViolation ''The node being checked does not exist''))
        (click_states calls)) \<and>
   (\<exists>props.
      dispatched_props (dom_contextmenu ex_co ex_ext ex_view 3) = Some props \<and>
      mp_getNode props (ByName ''ghost'') =
        Inl (InvariantViolation ''The node being checked does not exist''))"
proof -
  let ?nodes = "[\<lparr>nwp_node = Some ex_text, nwp_pos = 3\<rparr>, \<lparr>nwp_node = Some ex_paragraph, nwp_pos = 1\<rparr>]"
  let ?ranges = "[\<lparr>range_from = 2, range_to = 5, range_mark = ex_bold\<rparr>]"
  let ?rp = "\<lparr>rp_pos = 3, rp_root = ex_doc, rp_ancestors = [(ex_blockquote, 0), (ex_paragraph, 1)],
           nodeAfter = Some ex_text, rp_marks = [ex_bold]\<rparr>"
  let ?ep = "\<lparr>ep_pos = 3, ep_inside = 2\<rparr>"
  have ghost_n: "schema_nodes ex_schema ''ghost'' = None"
    by (simp add: ex_schema_def)
  have ghost_m: "schema_marks ex_schema ''ghost'' = None"
    by (simp add: ex_schema_def)
  have image: "schema_nodes ex_schema ''image'' = Some (NodeType ''image'') \<and>
      NodeType ''image'' \<noteq> node_type ex_paragraph"
    by (simp add: ex_schema_def ex_paragraph_def)
  have image_chain: "schema_nodes ex_schema ''image'' = Some (NodeType ''image'') \<and>
      list_all (\<lambda>e. nwp_node e \<noteq> None \<and> map_option node_type (nwp_node e) \<noteq> Some (NodeType ''image''))
        ?nodes"
    by (simp add: ex_schema_def ex_paragraph_def ex_text_def)
  have italic: "schema_marks ex_schema ''italic'' = Some (MarkType ''italic'') \<and>
      list_all (\<lambda>r. mark_type (range_mark r) \<noteq> MarkType ''italic'') ?ranges"
    by (simp add: ex_schema_def ex_bold_def)
  have r: "doc_resolve (currentState ex_ext) 3 = Inr ?rp"
    by (simp add: ex_ext_def newEventsExtension_def ex_state_def ex_resolve_def)
  have sch: "schema (currentState ex_ext) = ex_schema"
    by (simp add: ex_ext_def newEventsExtension_def ex_state_def)
  have vsch: "schema (view_state ex_view) = ex_schema"
    by (simp add: ex_view_def ex_state_def)
  have pr: "getPositionFromEvent ex_co ex_view 3 = Some ?ep \<and>
      doc_resolve (view_state ex_view) (ep_pos ?ep) = Inr ?rp"
    by (simp add: ex_co_def ex_view_def ex_state_def ex_resolve_def)
  note missing_nodes = lookup_faults [where sch = ex_schema and s = "''ghost''"
      and node = ex_paragraph and nodePos = 1 and nodes = ?nodes,
      THEN conjunct1, rule_format, OF ghost_n]
  note missing_mark = lookup_faults [where sch = ex_schema and s = "''ghost''"
      and ranges = ?ranges, THEN conjunct2, THEN conjunct1, rule_format, OF ghost_m]
  note other_click = lookup_faults [where sch = ex_schema and s = "''image''"
      and node = ex_paragraph and nodePos = 1,
      THEN conjunct2, THEN conjunct2, THEN conjunct1, rule_format, OF image]
  note other_mouse = lookup_faults [where sch = ex_schema and s = "''image''" and nodes = ?nodes,
      THEN conjunct2, THEN conjunct2, THEN conjunct2, THEN conjunct1, rule_format, OF image_chain]
  note other_mark = lookup_faults [where sch = ex_schema and s = "''italic''" and ranges = ?ranges,
      THEN conjunct2, THEN conjunct2, THEN conjunct2, THEN conjunct2, THEN conjunct1,
      rule_format, OF italic]
  note click_payload = lookup_faults [where ext = ex_ext and pos = 3 and co = ex_co
      and view = ex_view and node = ex_text and nodePos = 2 and event = 9 and d = True,
      THEN conjunct2, THEN conjunct2, THEN conjunct2, THEN conjunct2, THEN conjunct2,
      THEN conjunct2, THEN conjunct1, rule_format, OF r]
  note mouse_payload = lookup_faults [where co = ex_co and view = ex_view and mouse_event = 3
      and fn = "\<lambda>props. options ex_ext Contextmenu (MouseP props)",
      THEN conjunct2, THEN conjunct2, THEN conjunct2, THEN conjunct2, THEN conjunct2,
      THEN conjunct2, THEN conjunct2, rule_format, OF pr]
  have c: "\<exists>r calls.
      handleClickOn ex_co ex_ext ex_view 3 ex_text 2 9 True = Inr (r, calls, mark_handled ex_ext 9) \<and>
      list_all (\<lambda>st. getNode st (ByName ''ghost'') =
                  Inl (InvariantViolation ''The node being checked does not exist''))
        (click_states calls)"
  proof -
    from click_payload obtain r0 calls where
      h: "handleClickOn ex_co ex_ext ex_view 3 ex_text 2 9 True =
            Inr (r0, calls, mark_handled ex_ext 9)"
      and l: "list_all
             (\<lambda>st. getNode st = click_getNode (schema (currentState ex_ext)) ex_text 2 \<and>
                    getMark st =
                      (if eventMap ex_ext 9 = None
                       then lookup_mark (schema (currentState ex_ext)) (markRanges st)
                       else noop))
             (click_states calls)"
      by (elim exE conjE)
    have "list_all (\<lambda>st. getNode st (ByName ''ghost'') =
                  Inl (InvariantViolation ''The node being checked does not exist''))
        (click_states calls)"
      using l by (simp add: list_all_iff sch click_getNode_missing [OF ghost_n])
    with h show ?thesis by blast
  qed
  have m: "\<exists>props.
      dispatched_props (dom_contextmenu ex_co ex_ext ex_view 3) = Some props \<and>
      mp_getNode props (ByName ''ghost'') =
        Inl (InvariantViolation ''The node being checked does not exist'')"
  proof -
    from mouse_payload obtain props where
      p: "dispatched_props (createMouseEventHandler ex_co
            (\<lambda>props. options ex_ext Contextmenu (MouseP props)) ex_view 3) = Some props"
      and g: "mp_getNode props = mouse_getNode (schema (view_state ex_view)) (mp_nodes props)"
      by (elim exE conjE)
    have "mp_getNode props (ByName ''ghost'') =
        Inl (InvariantViolation ''The node being checked does not exist'')"
      by (simp add: g vsch mouse_getNode_missing [OF ghost_n])
    with p show ?thesis by (simp add: dom_contextmenu_def)
  qed
  from missing_nodes missing_mark other_click other_mouse other_mark c m show ?thesis
    by simp
qed

text \<open>The claim as the specification states it fails for \<open>getMark\<close> in a click handler
  called for an ancestor: the event is in the \<open>eventMap\<close>, the schema of the example has no
  mark named ghost, and \<open>getMark\<close> of the state given to the click chain returns
  \<open>undefined\<close> for that name.\<close>

theorem getMark_repeat_counterexample:
  "schema_marks (schema (currentState (mark_handled ex_ext 9))) ''ghost'' = None \<and>
   length (click_states (calls_of
     (handleClickOn ex_co (mark_handled ex_ext 9) ex_view 3 ex_paragraph 1 9 False))) = 1 \<and>
   getMark (hd (click_states (calls_of
     (handleClickOn ex_co (mark_handled ex_ext 9) ex_view 3 ex_paragraph 1 9 False))))
     (ByName ''ghost'') = Inr None"
proof -
  let ?rp = "\<lparr>rp_pos = 3, rp_root = ex_doc, rp_ancestors = [(ex_blockquote, 0), (ex_paragraph, 1)],
           nodeAfter = Some ex_text, rp_marks = [ex_bold]\<rparr>"
  have r: "doc_resolve (currentState (mark_handled ex_ext 9)) 3 = Inr ?rp"
    by (simp add: mark_handled_def ex_ext_def newEventsExtension_def ex_state_def ex_resolve_def)
  have h: "eventMap (mark_handled ex_ext 9) 9 \<noteq> None"
    by (simp add: mark_handled_def)
  have s: "schema_marks (schema (currentState (mark_handled ex_ext 9))) ''ghost'' = None"
    by (simp add: mark_handled_def ex_ext_def newEventsExtension_def ex_state_def ex_schema_def)
  show ?thesis
    by (simp add: s handleClickOn_repeat [OF r h] Let_def calls_of_def
        createClickMarkState_handled click_state_of_def noop_def)
qed

end
